theory Spec2Isabelle
  imports Complex_Main "HOL-Library.Log_Nat" "HOL-Library.Signed_Division"
begin

section \<open>Floating-point values\<close>

text \<open>
  A C++ \<^verbatim>\<open>float\<close> or \<^verbatim>\<open>double\<close> is modelled by the real number it denotes
  (finite values only: no NaN, no infinity). Every arithmetic operation of the source is
  the exact operation followed by rounding to nearest, ties to even, to 24 respectively
  53 significant bits, each operation rounded on its own (no fused multiply-add, no
  extended intermediate precision). The exponent range is not bounded: overflow to infinity
  and gradual underflow are outside of the model.
\<close>

type_synonym float32 = real
type_synonym float64 = real

text \<open>\<open>expo x\<close> is the binary exponent of a non-zero \<open>x\<close>:
  \<open>2 powi expo x \<le> \<bar>x\<bar> < 2 powi (expo x + 1)\<close>.\<close>

definition expo :: "real \<Rightarrow> int" where
  "expo v = (let a = \<bar>v\<bar> in
     if 1 \<le> a then bitlen \<lfloor>a\<rfloor> - 1 else - bitlen (\<lceil>1 / a\<rceil> - 1))"

text \<open>Round to the nearest integer, ties to the even one.\<close>

definition rne :: "real \<Rightarrow> int" where
  "rne v = (let f = \<lfloor>v\<rfloor>; r = v - of_int f in
     if r < 1 / 2 then f
     else if 1 / 2 < r then f + 1
     else if even f then f else f + 1)"

text \<open>Round to \<open>p\<close> significant bits.\<close>

definition fl :: "nat \<Rightarrow> real \<Rightarrow> real" where
  "fl p v = (if v = 0 then 0 else
     let u = 2 powi (expo v - int p + 1) in of_int (rne (v / u)) * u)"

definition f32 :: "real \<Rightarrow> float32" where
  "f32 = fl 24"

definition f64 :: "real \<Rightarrow> float64" where
  "f64 = fl 53"

text \<open>\<^verbatim>\<open>static_cast<int>(v)\<close> of a floating-point value truncates towards zero, and
  \<^verbatim>\<open>static_cast<float>(i)\<close> of an integer rounds. C++ \<^verbatim>\<open>int\<close> is modelled by
  \<^typ>\<open>int\<close>: a value outside of the range of \<^verbatim>\<open>int\<close> is undefined behaviour in the
  source and outside of the model.\<close>

definition static_cast_int :: "real \<Rightarrow> int" where
  "static_cast_int v = (if 0 \<le> v then \<lfloor>v\<rfloor> else \<lceil>v\<rceil>)"

definition static_cast_float :: "int \<Rightarrow> float32" where
  "static_cast_float i = f32 (of_int i)"

definition std_floor :: "float32 \<Rightarrow> float32" where
  "std_floor v = of_int \<lfloor>v\<rfloor>"

section \<open>Errors\<close>

text \<open>
  \<open>ContractViolation\<close> is the \<^verbatim>\<open>std::logic_error\<close> thrown by \<^verbatim>\<open>read\<close> and by
  \<^verbatim>\<open>EmotionsDetection::operator[]\<close>; \<open>UnknownStage\<close> is the \<^verbatim>\<open>std::logic_error\<close>
  thrown by \<^verbatim>\<open>Timer::operator[]\<close>; \<open>AtOutOfRange\<close> is the \<^verbatim>\<open>std::out_of_range\<close>
  of \<^verbatim>\<open>std::vector::at\<close> (a class derived from \<^verbatim>\<open>std::logic_error\<close>, kept apart from
  the errors that the code throws itself). \<open>IndexOutOfRange\<close> is the error the specification names for
  a decode beyond the submitted batch; no statement of the source raises it.
  The remaining constructors stand for behaviour that C++ leaves undefined
  (\<open>NullDereference\<close>, \<open>OutOfBoundsRead\<close>, \<open>DivisionByZero\<close>) and for the exceptions
  of code outside of the sources: of the inference backend when a blob name is unknown
  (\<open>BlobNotFound\<close>) and of a helper of the common code (\<open>HelperException\<close>).
\<close>

datatype error =
    ContractViolation
  | UnknownStage
  | IndexOutOfRange
  | AtOutOfRange
  | NullDereference
  | OutOfBoundsRead
  | DivisionByZero
  | BlobNotFound
  | HelperException

definition bindE :: "error + 'a \<Rightarrow> ('a \<Rightarrow> error + 'b) \<Rightarrow> error + 'b" where
  "bindE m f = (case m of Inl e \<Rightarrow> Inl e | Inr v \<Rightarrow> f v)"

text \<open>\<^verbatim>\<open>p->\<close> on a shared pointer, \<^verbatim>\<open>p[i]\<close> on a mapped buffer, \<^verbatim>\<open>v.at(i)\<close>.\<close>

definition deref :: "'a option \<Rightarrow> error + 'a" where
  "deref p = (case p of None \<Rightarrow> Inl NullDereference | Some v \<Rightarrow> Inr v)"

definition at_ptr :: "'a list \<Rightarrow> int \<Rightarrow> error + 'a" where
  "at_ptr buf i = (if 0 \<le> i \<and> i < int (length buf) then Inr (buf ! nat i) else Inl OutOfBoundsRead)"

definition at_vec :: "'a list \<Rightarrow> nat \<Rightarrow> error + 'a" where
  "at_vec v i = (if i < length v then Inr (v ! i) else Inl AtOutOfRange)"

section \<open>The inference backend\<close>

text \<open>
  A blob is a tensor of the backend: its dimensions and its buffer. The buffer is read
  through \<^verbatim>\<open>as<float *>()\<close> or through \<^verbatim>\<open>as<int32_t *>()\<close>; the two views of
  the same memory are two lists. An infer request is its named blobs, an executable
  network is the request \<^verbatim>\<open>CreateInferRequest\<close> returns. Every call into the
  backend is recorded in the \<open>calls\<close> of the stage that makes it.
\<close>

record Blob =
  dims :: "nat list"
  floats :: "float32 list"
  int32s :: "int list"

type_synonym InferRequest = "(string \<times> Blob) list"

definition GetBlob :: "InferRequest \<Rightarrow> string \<Rightarrow> error + Blob" where
  "GetBlob rq n = (case map_of rq n of None \<Rightarrow> Inl BlobNotFound | Some b \<Rightarrow> Inr b)"

record Mat =
  cols :: int
  rows :: int

record CNNNetwork =
  inputsInfo :: "(string \<times> nat list) list"
  outputsInfo :: "(string \<times> nat list) list"
  batchSize :: int

record Core =
  ReadNetwork :: "string \<Rightarrow> CNNNetwork"
  LoadNetwork :: "CNNNetwork \<Rightarrow> string \<Rightarrow> bool \<Rightarrow> InferRequest"

datatype backend_call =
    Call_ReadNetwork string
  | Call_LoadNetwork string bool
  | Call_CreateInferRequest
  | Call_GetBlob string
  | Call_matToBlob int
  | Call_SetBatch int
  | Call_StartAsync
  | Call_Infer
  | Call_Wait

datatype log_line =
    Debug_async string
  | Info_disabled string
  | Info_batch int
  | Warn_capacity int
  | Debug_element int int float32 int int int int bool

section \<open>BaseDetection\<close>

record BaseDetection =
  topoName :: string
  pathToModel :: string
  deviceForInference :: string
  maxBatch :: int
  isBatchDynamic :: bool
  isAsync :: bool
  enablingChecked :: bool
  enabled_flag :: bool
  doRawOutputMessages :: bool
  net :: InferRequest
  request :: "InferRequest option"
  input :: string
  calls :: "backend_call list"
  slog :: "log_line list"

text \<open>The constructor; \<open>enabled_flag\<close> is the member \<^verbatim>\<open>_enabled\<close>.\<close>

definition BaseDetection_init ::
  "string \<Rightarrow> string \<Rightarrow> string \<Rightarrow> int \<Rightarrow> bool \<Rightarrow> bool \<Rightarrow> bool \<Rightarrow> BaseDetection" where
  "BaseDetection_init name path device mb dyn async raw =
     \<lparr>topoName = name, pathToModel = path, deviceForInference = device, maxBatch = mb,
      isBatchDynamic = dyn, isAsync = async, enablingChecked = False, enabled_flag = False,
      doRawOutputMessages = raw, net = [], request = None, input = [],
      calls = [], slog = (if async then [Debug_async name] else [])\<rparr>"

text \<open>\<^verbatim>\<open>enabled()\<close> is a query that writes the cache on its first call, so it returns
  the answer and the stage.\<close>

definition enabled :: "'a BaseDetection_scheme \<Rightarrow> bool \<times> 'a BaseDetection_scheme" where
  "enabled s =
     (if \<not> enablingChecked s then
        let s1 = s\<lparr>enabled_flag := (pathToModel s \<noteq> [])\<rparr>;
            s2 = (if \<not> enabled_flag s1 then s1\<lparr>slog := slog s1 @ [Info_disabled (topoName s1)]\<rparr> else s1);
            s3 = s2\<lparr>enablingChecked := True\<rparr>
        in (enabled_flag s3, s3)
      else (enabled_flag s, s))"

text \<open>\<open>infer\<close> is what one run of the network does to the blobs of the request.\<close>

definition BaseDetection_submitRequest ::
  "(InferRequest \<Rightarrow> InferRequest) \<Rightarrow> 'a BaseDetection_scheme \<Rightarrow> 'a BaseDetection_scheme" where
  "BaseDetection_submitRequest infer s =
     (let (en, s1) = enabled s in
      case request s1 of
        None \<Rightarrow> s1
      | Some rq \<Rightarrow>
          if \<not> en then s1
          else if isAsync s1 then s1\<lparr>request := Some (infer rq), calls := calls s1 @ [Call_StartAsync]\<rparr>
          else s1\<lparr>request := Some (infer rq), calls := calls s1 @ [Call_Infer]\<rparr>)"

definition BaseDetection_wait :: "'a BaseDetection_scheme \<Rightarrow> 'a BaseDetection_scheme" where
  "BaseDetection_wait s =
     (let (en, s1) = enabled s in
      if \<not> en \<or> request s1 = None \<or> \<not> isAsync s1 then s1
      else s1\<lparr>calls := calls s1 @ [Call_Wait]\<rparr>)"

section \<open>The secondary stages\<close>

text \<open>
  \<^verbatim>\<open>AgeGenderDetection\<close>, \<^verbatim>\<open>HeadPoseDetection\<close>, \<^verbatim>\<open>EmotionsDetection\<close>,
  \<^verbatim>\<open>FacialLandmarksDetection\<close> and \<^verbatim>\<open>AntispoofingClassifier\<close> each derive from
  \<^verbatim>\<open>BaseDetection\<close> and add the counter \<^verbatim>\<open>enquedFaces\<close>. Their \<^verbatim>\<open>enqueue\<close> and
  \<^verbatim>\<open>submitRequest\<close> are the same statements in all five classes (the text of the
  warning apart), so each is embedded once, over every extension of the record
  \<open>SecondaryStage\<close>.
\<close>

record SecondaryStage = BaseDetection +
  enquedFaces :: int

record AgeGenderDetection = SecondaryStage +
  outputAge :: string
  outputGender :: string

record HeadPoseDetection = SecondaryStage +
  outputAngleR :: string
  outputAngleP :: string
  outputAngleY :: string

record EmotionsDetection = SecondaryStage +
  outputEmotions :: string
  emotionsVec :: "string list"

record FacialLandmarksDetection = SecondaryStage +
  outputFacialLandmarksBlobName :: string

record AntispoofingClassifier = SecondaryStage +
  prob_output :: string

definition SecondaryStage_init ::
  "string \<Rightarrow> string \<Rightarrow> string \<Rightarrow> int \<Rightarrow> bool \<Rightarrow> bool \<Rightarrow> bool \<Rightarrow> 'a \<Rightarrow> 'a SecondaryStage_scheme" where
  "SecondaryStage_init name path device mb dyn async raw ext =
     \<lparr>topoName = name, pathToModel = path, deviceForInference = device, maxBatch = mb,
      isBatchDynamic = dyn, isAsync = async, enablingChecked = False, enabled_flag = False,
      doRawOutputMessages = raw, net = [], request = None, input = [],
      calls = [], slog = (if async then [Debug_async name] else []),
      enquedFaces = 0, \<dots> = ext\<rparr>"

definition AgeGenderDetection_init ::
  "string \<Rightarrow> string \<Rightarrow> int \<Rightarrow> bool \<Rightarrow> bool \<Rightarrow> bool \<Rightarrow> AgeGenderDetection" where
  "AgeGenderDetection_init path device mb dyn async raw =
     SecondaryStage_init ''Age/Gender Recognition'' path device mb dyn async raw
       (AgeGenderDetection.fields [] [])"

definition HeadPoseDetection_init ::
  "string \<Rightarrow> string \<Rightarrow> int \<Rightarrow> bool \<Rightarrow> bool \<Rightarrow> bool \<Rightarrow> HeadPoseDetection" where
  "HeadPoseDetection_init path device mb dyn async raw =
     SecondaryStage_init ''Head Pose Estimation'' path device mb dyn async raw
       (HeadPoseDetection.fields ''angle_r_fc'' ''angle_p_fc'' ''angle_y_fc'')"

text \<open>The vector \<^verbatim>\<open>emotionsVec\<close> is a member that the class declaration initialises;
  the declaration is not among the sources, so the vector is an argument here.\<close>

definition EmotionsDetection_init ::
  "string list \<Rightarrow> string \<Rightarrow> string \<Rightarrow> int \<Rightarrow> bool \<Rightarrow> bool \<Rightarrow> bool \<Rightarrow> EmotionsDetection" where
  "EmotionsDetection_init labels path device mb dyn async raw =
     SecondaryStage_init ''Emotions Recognition'' path device mb dyn async raw
       (EmotionsDetection.fields [] labels)"

definition FacialLandmarksDetection_init ::
  "string \<Rightarrow> string \<Rightarrow> int \<Rightarrow> bool \<Rightarrow> bool \<Rightarrow> bool \<Rightarrow> FacialLandmarksDetection" where
  "FacialLandmarksDetection_init path device mb dyn async raw =
     SecondaryStage_init ''Facial Landmarks Estimation'' path device mb dyn async raw
       (FacialLandmarksDetection.fields ''align_fc3'')"

definition AntispoofingClassifier_init ::
  "string \<Rightarrow> string \<Rightarrow> int \<Rightarrow> bool \<Rightarrow> bool \<Rightarrow> bool \<Rightarrow> AntispoofingClassifier" where
  "AntispoofingClassifier_init path device mb dyn async raw =
     SecondaryStage_init ''Antispoofing'' path device mb dyn async raw
       (AntispoofingClassifier.fields [])"

definition enqueue :: "Mat \<Rightarrow> 'a SecondaryStage_scheme \<Rightarrow> error + 'a SecondaryStage_scheme" where
  "enqueue face s =
     (let (en, s1) = enabled s in
      if \<not> en then Inr s1
      else if enquedFaces s1 = maxBatch s1 then
        Inr (s1\<lparr>slog := slog s1 @ [Warn_capacity (maxBatch s1)]\<rparr>)
      else
        let s2 = (if request s1 = None
                  then s1\<lparr>request := Some (net s1), calls := calls s1 @ [Call_CreateInferRequest]\<rparr>
                  else s1)
        in bindE (deref (request s2)) (\<lambda>rq.
           bindE (GetBlob rq (input s2)) (\<lambda>inputBlob.
             Inr (s2\<lparr>calls := calls s2 @ [Call_GetBlob (input s2), Call_matToBlob (enquedFaces s2)],
                     enquedFaces := enquedFaces s2 + 1\<rparr>))))"

definition submitRequest ::
  "(InferRequest \<Rightarrow> InferRequest) \<Rightarrow> 'a SecondaryStage_scheme \<Rightarrow> error + 'a SecondaryStage_scheme" where
  "submitRequest infer s =
     (if enquedFaces s = 0 then Inr s
      else
        bindE (if isBatchDynamic s
               then bindE (deref (request s)) (\<lambda>rq.
                      Inr (s\<lparr>calls := calls s @ [Call_SetBatch (enquedFaces s)]\<rparr>))
               else Inr s) (\<lambda>s1.
          Inr ((BaseDetection_submitRequest infer s1)\<lparr>enquedFaces := 0\<rparr>)))"

subsection \<open>Decoding: the five \<^verbatim>\<open>operator[]\<close>\<close>

text \<open>The \<^verbatim>\<open>operator[]\<close> are \<^verbatim>\<open>const\<close>: they return a value and change nothing but the
  debug log, which is left out here.\<close>

record AgeGender_Result =
  age :: float32
  maleProb :: float32

record HeadPose_Results =
  angle_r :: float32
  angle_p :: float32
  angle_y :: float32

definition AgeGenderDetection_at :: "AgeGenderDetection \<Rightarrow> int \<Rightarrow> error + AgeGender_Result" where
  "AgeGenderDetection_at s idx =
     bindE (deref (request s)) (\<lambda>rq.
     bindE (GetBlob rq (outputGender s)) (\<lambda>genderBlob.
     bindE (GetBlob rq (outputAge s)) (\<lambda>ageBlob.
     bindE (at_ptr (floats ageBlob) idx) (\<lambda>a.
     bindE (at_ptr (floats genderBlob) (idx * 2 + 1)) (\<lambda>g.
       Inr \<lparr>age = f32 (a * 100), maleProb = g\<rparr>)))))"

definition HeadPoseDetection_at :: "HeadPoseDetection \<Rightarrow> int \<Rightarrow> error + HeadPose_Results" where
  "HeadPoseDetection_at s idx =
     bindE (deref (request s)) (\<lambda>rq.
     bindE (GetBlob rq (outputAngleR s)) (\<lambda>angleR.
     bindE (GetBlob rq (outputAngleP s)) (\<lambda>angleP.
     bindE (GetBlob rq (outputAngleY s)) (\<lambda>angleY.
     bindE (at_ptr (floats angleR) idx) (\<lambda>r.
     bindE (at_ptr (floats angleP) idx) (\<lambda>p.
     bindE (at_ptr (floats angleY) idx) (\<lambda>y.
       Inr \<lparr>angle_r = r, angle_p = p, angle_y = y\<rparr>)))))))"

text \<open>The loop \<^verbatim>\<open>for (i = 0; i < emotionsVecSize; i++) emotions[emotionsVec[i]] = outputIdxPos[i]\<close>
  walks the label vector; \<open>pos\<close> is the position of \<^verbatim>\<open>outputIdxPos[i]\<close> in the buffer.\<close>

fun emotions_loop ::
  "string list \<Rightarrow> float32 list \<Rightarrow> int \<Rightarrow> (string \<rightharpoonup> float32) \<Rightarrow> error + (string \<rightharpoonup> float32)" where
  "emotions_loop [] vals pos emotions = Inr emotions"
| "emotions_loop (l # ls) vals pos emotions =
     bindE (at_ptr vals pos) (\<lambda>v. emotions_loop ls vals (pos + 1) (emotions(l \<mapsto> v)))"

definition EmotionsDetection_at :: "EmotionsDetection \<Rightarrow> int \<Rightarrow> error + (string \<rightharpoonup> float32)" where
  "EmotionsDetection_at s idx =
     (let emotionsVecSize = length (emotionsVec s) in
      bindE (deref (request s)) (\<lambda>rq.
      bindE (GetBlob rq (outputEmotions s)) (\<lambda>emotionsBlob.
      bindE (at_vec (dims emotionsBlob) 1) (\<lambda>numOfChannels.
        if numOfChannels \<noteq> emotionsVecSize then Inl ContractViolation
        else emotions_loop (emotionsVec s) (floats emotionsBlob)
               (idx * int emotionsVecSize) Map.empty))))"

text \<open>
  In \<^verbatim>\<open>FacialLandmarksDetection::operator[]\<close> the variables \<^verbatim>\<open>n_lm\<close>, \<^verbatim>\<open>begin\<close>, \<^verbatim>\<open>end\<close> and
  \<^verbatim>\<open>i_lm\<close> are declared \<^verbatim>\<open>auto\<close> and take the type \<^verbatim>\<open>std::size_t\<close> that \<^verbatim>\<open>getTensorChannels\<close>
  returns: the index \<^verbatim>\<open>idx\<close> is converted to \<^verbatim>\<open>std::size_t\<close> and the arithmetic is modulo
  \<open>2 ^ 64\<close>. So a negative index gives \<^verbatim>\<open>begin\<close> above \<^verbatim>\<open>end\<close> and a loop that does not run.
  \<open>size_t\<close> is the conversion, and the products and sums below are reduced explicitly.
  (\<^verbatim>\<open>++i_lm\<close> cannot wrap, as \<open>i_lm < end\<close>.)
\<close>

definition size_t :: "int \<Rightarrow> nat" where
  "size_t i = nat (i mod 2 ^ 64)"

function landmarks_loop :: "float32 list \<Rightarrow> nat \<Rightarrow> nat \<Rightarrow> float32 list \<Rightarrow> error + float32 list" where
  "landmarks_loop coords i_lm end_lm normedLandmarks =
     (if i_lm < end_lm then
        bindE (at_ptr coords (int ((2 * i_lm) mod 2 ^ 64))) (\<lambda>normed_x.
        bindE (at_ptr coords (int ((2 * i_lm + 1) mod 2 ^ 64))) (\<lambda>normed_y.
          landmarks_loop coords (i_lm + 1) end_lm (normedLandmarks @ [normed_x, normed_y])))
      else Inr normedLandmarks)"
  by pat_completeness auto
termination
  by (relation "measure (\<lambda>(coords, i_lm, end_lm, acc). end_lm - i_lm)") auto

declare landmarks_loop.simps [simp del]

text \<open>\<^verbatim>\<open>getTensorChannels\<close> is a helper of the demos' common code that is not among
  the sources: it is an argument of the embedding, \<open>None\<close> where the helper throws.\<close>

definition FacialLandmarksDetection_at ::
  "(nat list \<Rightarrow> nat option) \<Rightarrow> FacialLandmarksDetection \<Rightarrow> int \<Rightarrow> error + float32 list" where
  "FacialLandmarksDetection_at getTensorChannels s idx =
     bindE (deref (request s)) (\<lambda>rq.
     bindE (GetBlob rq (outputFacialLandmarksBlobName s)) (\<lambda>landmarksBlob.
     bindE (case getTensorChannels (dims landmarksBlob) of
              None \<Rightarrow> Inl HelperException | Some n \<Rightarrow> Inr n) (\<lambda>n_lm.
       let begin_lm = (n_lm div 2 * size_t idx) mod 2 ^ 64;
           end_lm = (begin_lm + n_lm div 2) mod 2 ^ 64
       in landmarks_loop (floats landmarksBlob) begin_lm end_lm [])))"

definition AntispoofingClassifier_at :: "AntispoofingClassifier \<Rightarrow> int \<Rightarrow> error + float32" where
  "AntispoofingClassifier_at s idx =
     bindE (deref (request s)) (\<lambda>rq.
     bindE (GetBlob rq (prob_output s)) (\<lambda>ProbBlob.
     bindE (at_ptr (floats ProbBlob) (2 * idx)) (\<lambda>v.
       Inr (f32 (v * 100)))))"

subsection \<open>Binding a stage: \<^verbatim>\<open>read\<close> and \<^verbatim>\<open>Load::into\<close>\<close>

text \<open>
  \<^verbatim>\<open>InputsDataMap\<close> and \<^verbatim>\<open>OutputsDataMap\<close> are ordered maps; they are given as the
  list of their entries in key order, so \<^verbatim>\<open>begin()\<close> is the head of the list.
  \<^verbatim>\<open>begin()\<close> of an empty map and \<^verbatim>\<open>back()\<close> of an empty vector are undefined
  behaviour, \<open>OutOfBoundsRead\<close> here. Setting a precision changes nothing that the model
  keeps.
\<close>

definition FacialLandmarksDetection_read ::
  "Core \<Rightarrow> FacialLandmarksDetection \<Rightarrow> error + (CNNNetwork \<times> FacialLandmarksDetection)" where
  "FacialLandmarksDetection_read ie s =
     (let network = (ReadNetwork ie (pathToModel s))\<lparr>batchSize := maxBatch s\<rparr>;
          s1 = s\<lparr>calls := calls s @ [Call_ReadNetwork (pathToModel s)]\<rparr>;
          inputInfo = inputsInfo network
      in if length inputInfo \<noteq> 1 then Inl ContractViolation
         else
           let s2 = s1\<lparr>input := fst (hd inputInfo)\<rparr>;
               outputInfo = outputsInfo network
           in case outputInfo of
                [] \<Rightarrow> Inl OutOfBoundsRead
              | (outName, outSizeVector) # rest \<Rightarrow>
                  if outName \<noteq> outputFacialLandmarksBlobName s2 then Inl ContractViolation
                  else if length outSizeVector \<noteq> 2 \<and> outSizeVector = [] then Inl OutOfBoundsRead
                  else if length outSizeVector \<noteq> 2 \<and> last outSizeVector \<noteq> 70 then Inl ContractViolation
                  else Inr (network, s2\<lparr>enabled_flag := True\<rparr>))"

text \<open>\<^verbatim>\<open>deviceName.find(pat) != std::string::npos\<close>.\<close>

fun str_find :: "string \<Rightarrow> string \<Rightarrow> bool" where
  "str_find pat [] = (pat = [])"
| "str_find pat (c # cs) = (take (length pat) (c # cs) = pat \<or> str_find pat cs)"

text \<open>\<^verbatim>\<open>Load::into\<close> calls the virtual \<^verbatim>\<open>read\<close> of the stage it loads: \<open>read\<close> is an
  argument. The configuration map has at most the one key for dynamic batching, so it is a
  boolean. \<^verbatim>\<open>logExecNetworkInfo\<close> only prints and is left out.\<close>

definition Load_into ::
  "(Core \<Rightarrow> 'a BaseDetection_scheme \<Rightarrow> error + (CNNNetwork \<times> 'a BaseDetection_scheme)) \<Rightarrow>
   Core \<Rightarrow> string \<Rightarrow> bool \<Rightarrow> 'a BaseDetection_scheme \<Rightarrow> error + 'a BaseDetection_scheme" where
  "Load_into read ie deviceName enable_dynamic_batch detector =
     (let (en, d1) = enabled detector in
      if en then
        let isPossibleDynBatch = (str_find ''CPU'' deviceName \<or> str_find ''GPU'' deviceName);
            config = (enable_dynamic_batch \<and> isPossibleDynBatch)
        in bindE (read ie d1) (\<lambda>(network, d2).
             Inr (d2\<lparr>net := LoadNetwork ie network deviceName config,
                     calls := calls d2 @ [Call_LoadNetwork deviceName config],
                     slog := slog d2 @ [Info_batch (maxBatch d2)]\<rparr>))
      else Inr d1)"

section \<open>The primary detector\<close>

record Rect =
  rect_x :: int
  rect_y :: int
  rect_width :: int
  rect_height :: int

record Result =
  label :: int
  confidence :: float32
  location :: Rect

record FaceDetection = BaseDetection +
  detectionThreshold :: float64
  maxProposalCount :: int
  objectSize :: int
  enquedFrames :: int
  width :: float32
  height :: float32
  network_input_width :: float32
  network_input_height :: float32
  bb_enlarge_coefficient :: float32
  bb_dx_coefficient :: float32
  bb_dy_coefficient :: float32
  resultsFetched :: bool
  results :: "Result list"
  output_name :: string
  labels_output :: string

text \<open>The member \<^verbatim>\<open>output\<close> is the field \<open>output_name\<close>.\<close>

definition FaceDetection_init ::
  "string \<Rightarrow> string \<Rightarrow> int \<Rightarrow> bool \<Rightarrow> bool \<Rightarrow> float64 \<Rightarrow> bool \<Rightarrow>
   float32 \<Rightarrow> float32 \<Rightarrow> float32 \<Rightarrow> FaceDetection" where
  "FaceDetection_init path device mb dyn async threshold raw e dx dy =
     \<lparr>topoName = ''Face Detection'', pathToModel = path, deviceForInference = device,
      maxBatch = mb, isBatchDynamic = dyn, isAsync = async, enablingChecked = False,
      enabled_flag = False, doRawOutputMessages = raw, net = [], request = None, input = [],
      calls = [], slog = (if async then [Debug_async ''Face Detection''] else []),
      detectionThreshold = threshold, maxProposalCount = 0, objectSize = 0, enquedFrames = 0,
      width = 0, height = 0, network_input_width = 0, network_input_height = 0,
      bb_enlarge_coefficient = e, bb_dx_coefficient = dx, bb_dy_coefficient = dy,
      resultsFetched = False, results = [], output_name = [], labels_output = []\<rparr>"

definition FaceDetection_submitRequest ::
  "(InferRequest \<Rightarrow> InferRequest) \<Rightarrow> FaceDetection \<Rightarrow> FaceDetection" where
  "FaceDetection_submitRequest infer s =
     (if enquedFrames s = 0 then s
      else BaseDetection_submitRequest infer
             (s\<lparr>enquedFrames := 0, resultsFetched := False, results := []\<rparr>))"

definition FaceDetection_enqueue :: "Mat \<Rightarrow> FaceDetection \<Rightarrow> error + FaceDetection" where
  "FaceDetection_enqueue frame s =
     (let (en, s1) = enabled s in
      if \<not> en then Inr s1
      else
        let s2 = (if request s1 = None
                  then s1\<lparr>request := Some (net s1), calls := calls s1 @ [Call_CreateInferRequest]\<rparr>
                  else s1);
            s3 = s2\<lparr>width := static_cast_float (cols frame), height := static_cast_float (rows frame)\<rparr>
        in bindE (deref (request s3)) (\<lambda>rq.
           bindE (GetBlob rq (input s3)) (\<lambda>inputBlob.
             Inr (s3\<lparr>calls := calls s3 @ [Call_GetBlob (input s3), Call_matToBlob 0],
                     enquedFrames := 1\<rparr>))))"

text \<open>
  The statements under the comment ``Make square and enlarge face bounding box'' are the
  same in both loops of \<^verbatim>\<open>fetchResults\<close>; \<open>enlarge\<close> is that block. The division
  \<^verbatim>\<open>bb_width / 2\<close> is the truncating division of C++.
\<close>

definition enlarge :: "float32 \<Rightarrow> float32 \<Rightarrow> float32 \<Rightarrow> Rect \<Rightarrow> Rect" where
  "enlarge e dx dy loc =
     (let bb_width = rect_width loc;
          bb_height = rect_height loc;
          bb_center_x = rect_x loc + bb_width sdiv 2;
          bb_center_y = rect_y loc + bb_height sdiv 2;
          max_of_sizes = max bb_width bb_height;
          bb_new_width = static_cast_int (f32 (e * static_cast_float max_of_sizes));
          bb_new_height = static_cast_int (f32 (e * static_cast_float max_of_sizes))
      in \<lparr>rect_x = bb_center_x -
             static_cast_int (std_floor (f32 (f32 (dx * static_cast_float bb_new_width) / 2))),
          rect_y = bb_center_y -
             static_cast_int (std_floor (f32 (f32 (dy * static_cast_float bb_new_height) / 2))),
          rect_width = bb_new_width,
          rect_height = bb_new_height\<rparr>)"

text \<open>The end of both loop bodies: the debug line, then the test that emits.\<close>

definition emit ::
  "FaceDetection \<Rightarrow> int \<Rightarrow> Result \<Rightarrow> Result list \<times> log_line list \<Rightarrow> Result list \<times> log_line list" where
  "emit s i r acc =
     (let lg = (if doRawOutputMessages s
                then snd acc @ [Debug_element i (label r) (confidence r)
                       (rect_x (location r)) (rect_y (location r))
                       (rect_width (location r)) (rect_height (location r))
                       (confidence r > detectionThreshold s)]
                else snd acc)
      in (if confidence r > detectionThreshold s then fst acc @ [r] else fst acc, lg))"

text \<open>A float divided by zero is an infinity or a NaN, which the cast to \<^verbatim>\<open>int\<close> that
  follows leaves undefined.\<close>

definition fdiv32 :: "float32 \<Rightarrow> float32 \<Rightarrow> error + float32" where
  "fdiv32 a b = (if b = 0 then Inl DivisionByZero else Inr (f32 (a / b)))"

text \<open>One pass of the loop over the boxes-plus-labels format, up to the \<^verbatim>\<open>continue\<close>
  (\<open>None\<close>) or to the enlarged box.\<close>

definition body5 :: "FaceDetection \<Rightarrow> float32 list \<Rightarrow> int list \<Rightarrow> int \<Rightarrow> error + Result option" where
  "body5 s detections labels i =
     bindE (at_ptr labels i) (\<lambda>lab.
     bindE (at_ptr detections (i * objectSize s + 4)) (\<lambda>conf.
       if conf \<le> detectionThreshold s \<and> \<not> doRawOutputMessages s then Inr None
       else
         bindE (at_ptr detections (i * objectSize s + 0)) (\<lambda>d0.
         bindE (fdiv32 d0 (network_input_width s)) (\<lambda>q0.
         let lx = static_cast_int (f32 (q0 * width s)) in
         bindE (at_ptr detections (i * objectSize s + 1)) (\<lambda>d1.
         bindE (fdiv32 d1 (network_input_height s)) (\<lambda>q1.
         let ly = static_cast_int (f32 (q1 * height s)) in
         bindE (at_ptr detections (i * objectSize s + 2)) (\<lambda>d2.
         bindE (fdiv32 d2 (network_input_width s)) (\<lambda>q2.
         let lw = static_cast_int (f32 (f32 (q2 * width s) - static_cast_float lx)) in
         bindE (at_ptr detections (i * objectSize s + 3)) (\<lambda>d3.
         bindE (fdiv32 d3 (network_input_height s)) (\<lambda>q3.
         let lh = static_cast_int (f32 (f32 (q3 * height s) - static_cast_float ly)) in
         Inr (Some \<lparr>label = lab, confidence = conf,
                    location = enlarge (bb_enlarge_coefficient s) (bb_dx_coefficient s)
                      (bb_dy_coefficient s)
                      \<lparr>rect_x = lx, rect_y = ly, rect_width = lw, rect_height = lh\<rparr>\<rparr>)))))))))))"

function loop5 ::
  "FaceDetection \<Rightarrow> float32 list \<Rightarrow> int list \<Rightarrow> int \<Rightarrow> Result list \<times> log_line list \<Rightarrow>
   error + (Result list \<times> log_line list)" where
  "loop5 s detections labels i acc =
     (if i < maxProposalCount s \<and> objectSize s = 5 then
        (case body5 s detections labels i of
           Inl e \<Rightarrow> Inl e
         | Inr None \<Rightarrow> loop5 s detections labels (i + 1) acc
         | Inr (Some r) \<Rightarrow> loop5 s detections labels (i + 1) (emit s i r acc))
      else Inr acc)"
  by pat_completeness auto
termination
  by (relation "measure (\<lambda>(s, detections, labels, i, acc). nat (maxProposalCount s - i))") auto

declare loop5.simps [simp del]

text \<open>One pass of the loop over the 7-wide format, after the test of \<^verbatim>\<open>image_id\<close>.\<close>

definition body7 :: "FaceDetection \<Rightarrow> float32 list \<Rightarrow> int \<Rightarrow> error + Result option" where
  "body7 s detections i =
     bindE (at_ptr detections (i * objectSize s + 1)) (\<lambda>d1.
     bindE (at_ptr detections (i * objectSize s + 2)) (\<lambda>conf.
       if conf \<le> detectionThreshold s \<and> \<not> doRawOutputMessages s then Inr None
       else
         bindE (at_ptr detections (i * objectSize s + 3)) (\<lambda>d3.
         let lx = static_cast_int (f32 (d3 * width s)) in
         bindE (at_ptr detections (i * objectSize s + 4)) (\<lambda>d4.
         let ly = static_cast_int (f32 (d4 * height s)) in
         bindE (at_ptr detections (i * objectSize s + 5)) (\<lambda>d5.
         let lw = static_cast_int (f32 (f32 (d5 * width s) - static_cast_float lx)) in
         bindE (at_ptr detections (i * objectSize s + 6)) (\<lambda>d6.
         let lh = static_cast_int (f32 (f32 (d6 * height s) - static_cast_float ly)) in
         Inr (Some \<lparr>label = static_cast_int d1, confidence = conf,
                    location = enlarge (bb_enlarge_coefficient s) (bb_dx_coefficient s)
                      (bb_dy_coefficient s)
                      \<lparr>rect_x = lx, rect_y = ly, rect_width = lw, rect_height = lh\<rparr>\<rparr>)))))))"

function loop7 ::
  "FaceDetection \<Rightarrow> float32 list \<Rightarrow> int \<Rightarrow> Result list \<times> log_line list \<Rightarrow>
   error + (Result list \<times> log_line list)" where
  "loop7 s detections i acc =
     (if i < maxProposalCount s \<and> objectSize s = 7 then
        (case at_ptr detections (i * objectSize s + 0) of
           Inl e \<Rightarrow> Inl e
         | Inr image_id \<Rightarrow>
             if image_id < 0 then Inr acc
             else
               (case body7 s detections i of
                  Inl e \<Rightarrow> Inl e
                | Inr None \<Rightarrow> loop7 s detections (i + 1) acc
                | Inr (Some r) \<Rightarrow> loop7 s detections (i + 1) (emit s i r acc)))
      else Inr acc)"
  by pat_completeness auto
termination
  by (relation "measure (\<lambda>(s, detections, i, acc). nat (maxProposalCount s - i))") auto

declare loop7.simps [simp del]

text \<open>What \<^verbatim>\<open>fetchResults\<close> does with the request once it has set the flag.\<close>

definition decode_detections ::
  "FaceDetection \<Rightarrow> InferRequest \<Rightarrow> error + (Result list \<times> log_line list)" where
  "decode_detections s rq =
     bindE (GetBlob rq (output_name s)) (\<lambda>outputBlob.
       let detections = floats outputBlob in
       bindE (if labels_output s \<noteq> []
              then bindE (GetBlob rq (labels_output s)) (\<lambda>labelsBlob.
                     loop5 s detections (int32s labelsBlob) 0 (results s, slog s))
              else Inr (results s, slog s)) (\<lambda>acc.
         loop7 s detections 0 acc))"

definition fetchResults :: "FaceDetection \<Rightarrow> error + FaceDetection" where
  "fetchResults s =
     (let (en, s1) = enabled s in
      if \<not> en then Inr s1
      else
        let s2 = s1\<lparr>results := []\<rparr> in
        if resultsFetched s2 then Inr s2
        else
          let s3 = s2\<lparr>resultsFetched := True\<rparr> in
          bindE (deref (request s3)) (\<lambda>rq.
          bindE (decode_detections s3 rq) (\<lambda>acc.
            Inr (s3\<lparr>results := fst acc, slog := snd acc\<rparr>))))"

section \<open>The latency tracker\<close>

text \<open>
  A time point of the steady clock is its tick count. The type \<^verbatim>\<open>ms\<close> of
  \<^verbatim>\<open>duration_cast<ms>\<close> is declared in the header, which is not among the sources:
  \<open>ms\<close>, the number that \<^verbatim>\<open>duration_cast<ms>(d).count()\<close> yields for a difference of
  \<open>d\<close> ticks, is an argument. Each reading of the clock is an argument as well.
\<close>

record CallStat =
  number_of_calls :: nat
  total_duration :: float64
  last_call_duration :: float64
  smoothed_duration :: float64
  last_call_start :: int

definition CallStat_init :: CallStat where
  "CallStat_init = \<lparr>number_of_calls = 0, total_duration = 0, last_call_duration = 0,
     smoothed_duration = - 1, last_call_start = 0\<rparr>"

definition getSmoothedDuration :: "(int \<Rightarrow> float64) \<Rightarrow> int \<Rightarrow> CallStat \<Rightarrow> float64" where
  "getSmoothedDuration ms t c =
     (if smoothed_duration c < 0 then ms (t - last_call_start c) else smoothed_duration c)"

definition calculateDuration :: "(int \<Rightarrow> float64) \<Rightarrow> int \<Rightarrow> CallStat \<Rightarrow> CallStat" where
  "calculateDuration ms t c =
     (let c1 = c\<lparr>last_call_duration := ms (t - last_call_start c)\<rparr>;
          c2 = c1\<lparr>number_of_calls := number_of_calls c1 + 1\<rparr>;
          c3 = c2\<lparr>total_duration := f64 (total_duration c2 + last_call_duration c2)\<rparr>;
          c4 = (if smoothed_duration c3 < 0
                then c3\<lparr>smoothed_duration := last_call_duration c3\<rparr> else c3);
          alpha = f64 (1 / 10);
          c5 = c4\<lparr>smoothed_duration :=
                    f64 (f64 (smoothed_duration c4 * f64 (1 - alpha)) +
                         f64 (last_call_duration c4 * alpha))\<rparr>
      in c5\<lparr>last_call_start := t\<rparr>)"

definition setStartTime :: "int \<Rightarrow> CallStat \<Rightarrow> CallStat" where
  "setStartTime t c = c\<lparr>last_call_start := t\<rparr>"

type_synonym Timer = "string \<rightharpoonup> CallStat"

definition Timer_start :: "string \<Rightarrow> int \<Rightarrow> Timer \<Rightarrow> Timer" where
  "Timer_start name t timers =
     (let timers1 = (if timers name = None then timers(name \<mapsto> CallStat_init) else timers)
      in case timers1 name of
           None \<Rightarrow> timers1
         | Some c \<Rightarrow> timers1(name \<mapsto> setStartTime t c))"

definition Timer_at :: "Timer \<Rightarrow> string \<Rightarrow> error + CallStat" where
  "Timer_at timers name = (case timers name of None \<Rightarrow> Inl UnknownStage | Some c \<Rightarrow> Inr c)"

definition Timer_finish :: "(int \<Rightarrow> float64) \<Rightarrow> string \<Rightarrow> int \<Rightarrow> Timer \<Rightarrow> error + Timer" where
  "Timer_finish ms name t timers =
     bindE (Timer_at timers name) (\<lambda>timer. Inr (timers(name \<mapsto> calculateDuration ms t timer)))"

section \<open>Sequences of operations\<close>

text \<open>
  The operations a coordinator performs on one stage, and their effect one after the other;
  an exception ends the sequence. \<open>Op_decode\<close> is \<^verbatim>\<open>operator[]\<close> on a secondary stage
  and \<^verbatim>\<open>fetchResults\<close> on the primary detector.
\<close>

datatype stage_op =
    Op_load Core string bool
  | Op_enqueue Mat
  | Op_submit
  | Op_wait
  | Op_decode int

fun is_decode :: "stage_op \<Rightarrow> bool" where
  "is_decode (Op_decode idx) = True"
| "is_decode other = False"

definition secondary_step ::
  "(Core \<Rightarrow> 'a SecondaryStage_scheme \<Rightarrow> error + (CNNNetwork \<times> 'a SecondaryStage_scheme)) \<Rightarrow>
   ('a SecondaryStage_scheme \<Rightarrow> int \<Rightarrow> error + 'r) \<Rightarrow> (InferRequest \<Rightarrow> InferRequest) \<Rightarrow>
   stage_op \<Rightarrow> 'a SecondaryStage_scheme \<Rightarrow> error + 'a SecondaryStage_scheme" where
  "secondary_step read decode infer op s =
     (case op of
        Op_load ie deviceName dyn \<Rightarrow> Load_into read ie deviceName dyn s
      | Op_enqueue face \<Rightarrow> enqueue face s
      | Op_submit \<Rightarrow> submitRequest infer s
      | Op_wait \<Rightarrow> Inr (BaseDetection_wait s)
      | Op_decode idx \<Rightarrow> bindE (decode s idx) (\<lambda>r. Inr s))"

definition primary_step ::
  "(Core \<Rightarrow> FaceDetection \<Rightarrow> error + (CNNNetwork \<times> FaceDetection)) \<Rightarrow>
   (InferRequest \<Rightarrow> InferRequest) \<Rightarrow> stage_op \<Rightarrow> FaceDetection \<Rightarrow> error + FaceDetection" where
  "primary_step read infer op s =
     (case op of
        Op_load ie deviceName dyn \<Rightarrow> Load_into read ie deviceName dyn s
      | Op_enqueue frame \<Rightarrow> FaceDetection_enqueue frame s
      | Op_submit \<Rightarrow> Inr (FaceDetection_submitRequest infer s)
      | Op_wait \<Rightarrow> Inr (BaseDetection_wait s)
      | Op_decode idx \<Rightarrow> fetchResults s)"

fun run_ops :: "(stage_op \<Rightarrow> 's \<Rightarrow> error + 's) \<Rightarrow> stage_op list \<Rightarrow> 's \<Rightarrow> error + 's" where
  "run_ops step [] s = Inr s"
| "run_ops step (op # ops) s = bindE (step op s) (run_ops step ops)"

fun enqueue_all :: "Mat list \<Rightarrow> 'a SecondaryStage_scheme \<Rightarrow> error + 'a SecondaryStage_scheme" where
  "enqueue_all [] s = Inr s"
| "enqueue_all (face # faces) s = bindE (enqueue face s) (enqueue_all faces)"

section \<open>Concrete stages and tensors\<close>

text \<open>A backend that reads a landmarks model with one input and one output \<open>align_fc3\<close>
  of the given dimensions.\<close>

definition landmarks_core :: "nat list \<Rightarrow> Core" where
  "landmarks_core outDims =
     \<lparr>ReadNetwork = (\<lambda>path. \<lparr>inputsInfo = [(''data'', [1, 3, 60, 60])],
                               outputsInfo = [(''align_fc3'', outDims)], batchSize = 1\<rparr>),
      LoadNetwork = (\<lambda>network deviceName dyn. [])\<rparr>"

text \<open>A stage that was configured with an empty model path and has made no call into the
  backend.\<close>

definition inert :: "'a BaseDetection_scheme \<Rightarrow> bool" where
  "inert s \<longleftrightarrow> pathToModel s = [] \<and> (enablingChecked s \<longrightarrow> \<not> enabled_flag s) \<and>
     request s = None \<and> calls s = []"

text \<open>The step of the exponential moving average with smoothing factor 0.1 as the
  specification writes it, \<open>0.9 \<cdot> s + 0.1 \<cdot> d\<close>, evaluated in double precision.\<close>

definition ema :: "float64 \<Rightarrow> float64 \<Rightarrow> float64" where
  "ema s d = f64 (f64 (s * f64 (1 - f64 (1 / 10))) + f64 (d * f64 (1 / 10)))"

text \<open>A clock that ticks in nanoseconds and an \<^verbatim>\<open>ms\<close> that counts milliseconds in a
  \<^verbatim>\<open>double\<close>.\<close>

definition ms_of_ns :: "int \<Rightarrow> float64" where
  "ms_of_ns d = f64 (f64 (of_int d) / 1000000)"

definition face64 :: Mat where
  "face64 = \<lparr>cols = 64, rows = 64\<rparr>"

definition frame640 :: Mat where
  "frame640 = \<lparr>cols = 640, rows = 480\<rparr>"

text \<open>Loaded secondary stages with room for two faces.\<close>

definition antispoofing_loaded :: AntispoofingClassifier where
  "antispoofing_loaded =
     (AntispoofingClassifier_init ''antispoofing.xml'' ''CPU'' 2 False False False)
       \<lparr>net := [(''data'', \<lparr>dims = [2, 3, 2, 2], floats = [], int32s = []\<rparr>),
                (''prob'', \<lparr>dims = [2, 2], floats = [3 / 4, 1 / 4, 1 / 2, 1 / 2], int32s = []\<rparr>)],
        input := ''data'', prob_output := ''prob''\<rparr>"

definition agegender_loaded :: AgeGenderDetection where
  "agegender_loaded =
     (AgeGenderDetection_init ''age-gender.xml'' ''CPU'' 2 False False False)
       \<lparr>net := [(''data'', \<lparr>dims = [2, 3, 2, 2], floats = [], int32s = []\<rparr>),
                (''age_conv3'', \<lparr>dims = [2, 1, 1, 1], floats = [1 / 4, 1 / 2], int32s = []\<rparr>),
                (''prob'', \<lparr>dims = [2, 2, 1, 1], floats = [1 / 4, 3 / 4, 1 / 2, 1 / 2], int32s = []\<rparr>)],
        input := ''data'', outputAge := ''age_conv3'', outputGender := ''prob''\<rparr>"

text \<open>The Age/Gender stage after one face has been enqueued and submitted: the last
  submitted batch has one face, the tensors have room for two.\<close>

definition agegender_after_one_face :: "error + AgeGenderDetection" where
  "agegender_after_one_face = bindE (enqueue face64 agegender_loaded) (submitRequest id)"

text \<open>Stages with a request whose output tensors hold the results of a run.\<close>

definition headpose_decoding :: HeadPoseDetection where
  "headpose_decoding =
     (HeadPoseDetection_init ''head-pose.xml'' ''CPU'' 1 False False False)
       \<lparr>request := Some [(''angle_p_fc'', \<lparr>dims = [1, 1], floats = [5], int32s = []\<rparr>),
                         (''angle_r_fc'', \<lparr>dims = [1, 1], floats = [- 3], int32s = []\<rparr>),
                         (''angle_y_fc'', \<lparr>dims = [1, 1], floats = [12], int32s = []\<rparr>),
                         (''data'', \<lparr>dims = [1, 3, 2, 2], floats = [], int32s = []\<rparr>)],
        input := ''data''\<rparr>"

definition landmarks_decoding :: FacialLandmarksDetection where
  "landmarks_decoding =
     (FacialLandmarksDetection_init ''landmarks.xml'' ''CPU'' 1 False False False)
       \<lparr>request := Some [(''align_fc3'', \<lparr>dims = [1, 4],
                            floats = [1 / 4, 1 / 2, 3 / 4, 1 / 8], int32s = []\<rparr>),
                         (''data'', \<lparr>dims = [1, 3, 2, 2], floats = [], int32s = []\<rparr>)],
        input := ''data''\<rparr>"

definition antispoofing_decoding :: AntispoofingClassifier where
  "antispoofing_decoding = antispoofing_loaded\<lparr>request := Some (net antispoofing_loaded)\<rparr>"

definition seven_emotions :: "string list" where
  "seven_emotions = [''neutral'', ''happy'', ''sad'', ''surprise'', ''anger'', ''fear'', ''disgust'']"

text \<open>An Emotion stage with the given label vector, after a run on one face.\<close>

definition emotions_decoding :: "string list \<Rightarrow> EmotionsDetection" where
  "emotions_decoding labels =
     (EmotionsDetection_init labels ''emotions.xml'' ''CPU'' 1 False False False)
       \<lparr>request := Some [(''data'', \<lparr>dims = [1, 3, 2, 2], floats = [], int32s = []\<rparr>),
                         (''prob_emotion'', \<lparr>dims = [1, 7, 1, 1],
                            floats = [1 / 2, 1 / 8, 1 / 16, 1 / 16, 1 / 8, 1 / 32, 3 / 32],
                            int32s = []\<rparr>)],
        input := ''data'', outputEmotions := ''prob_emotion''\<rparr>"

text \<open>A loaded primary detector with the 7-wide output, and a run of the network that
  writes two detections, the second with a confidence equal to the threshold, and the
  end marker.\<close>

definition detector_loaded :: FaceDetection where
  "detector_loaded =
     (FaceDetection_init ''face-detection.xml'' ''CPU'' 1 False False (1 / 2) False (3 / 2) 1 1)
       \<lparr>net := [(''data'', \<lparr>dims = [1, 3, 300, 300], floats = [], int32s = []\<rparr>),
                (''detection_out'', \<lparr>dims = [1, 1, 3, 7], floats = replicate 21 0, int32s = []\<rparr>)],
        input := ''data'', maxProposalCount := 3, objectSize := 7,
        output_name := ''detection_out''\<rparr>"

definition detections_two_faces :: "float32 list" where
  "detections_two_faces =
     [0, 1, 7 / 8, 1 / 8, 1 / 8, 1 / 2, 1 / 2,
      0, 1, 1 / 2, 0, 0, 1, 1,
      - 1, 0, 0, 0, 0, 0, 0]"

definition infer_two_faces :: "InferRequest \<Rightarrow> InferRequest" where
  "infer_two_faces rq =
     map (\<lambda>(n, b). if n = ''detection_out'' then (n, b\<lparr>floats := detections_two_faces\<rparr>)
                    else (n, b)) rq"

text \<open>The detector after one frame has been enqueued.\<close>

definition detector_enqueued :: "error + FaceDetection" where
  "detector_enqueued = FaceDetection_enqueue frame640 detector_loaded"

section \<open>Basic facts\<close>

lemma bindE_simps [simp]:
  "bindE (Inl e) f = Inl e"
  "bindE (Inr v) f = f v"
  by (simp_all add: bindE_def)

lemma bindE_eq_Inr: "bindE m f = Inr v \<longleftrightarrow> (\<exists>x. m = Inr x \<and> f x = Inr v)"
  by (cases m) simp_all

lemma bindE_eq_Inl: "bindE m f = Inl e \<longleftrightarrow> m = Inl e \<or> (\<exists>x. m = Inr x \<and> f x = Inl e)"
  by (cases m) simp_all

section \<open>Shape validation of the Facial Landmarks stage\<close>

text \<open>
  The test of \<^verbatim>\<open>FacialLandmarksDetection::read\<close> on the output dimensions throws only
  when the rank differs from 2 and the last dimension differs from 70 as well.
\<close>

lemma landmarks_read_shape_check:
  assumes "inputsInfo (ReadNetwork ie (pathToModel s)) = [inp]"
      and "outputsInfo (ReadNetwork ie (pathToModel s)) = (outputFacialLandmarksBlobName s, d) # rest"
      and "d \<noteq> []"
  shows "FacialLandmarksDetection_read ie s = Inl ContractViolation \<longleftrightarrow>
         (length d \<noteq> 2 \<and> last d \<noteq> 70)"
  using assms by (simp add: FacialLandmarksDetection_read_def Let_def)

text \<open>
  C2. The claim: bind of the Facial Landmarks stage fails with ContractViolation whenever
  the output tensor has rank other than 2 or last dimension other than 70. The code at a
  model whose only output \<open>align_fc3\<close> has dimensions \<open>[1, 10]\<close> (rank 2, last dimension 10):
  \<^verbatim>\<open>read\<close> does not throw, it returns the network and sets \<^verbatim>\<open>_enabled\<close>.
\<close>

theorem landmarks_read_accepts_last_dim_10:
  "\<not> isl (FacialLandmarksDetection_read (landmarks_core [1, 10])
            (FacialLandmarksDetection_init ''landmarks.xml'' ''CPU'' 16 False False False))"
  by code_simp

section \<open>Facts about pointers, blobs and \<^verbatim>\<open>enabled()\<close>\<close>

lemma at_ptr_Inr:
  "at_ptr buf i = Inr v \<longleftrightarrow> 0 \<le> i \<and> i < int (length buf) \<and> v = buf ! nat i"
  by (auto simp: at_ptr_def)

lemma at_ptr_Inl:
  "at_ptr buf i = Inl e \<longleftrightarrow> \<not> (0 \<le> i \<and> i < int (length buf)) \<and> e = OutOfBoundsRead"
  by (auto simp: at_ptr_def)

lemma deref_Inr: "deref p = Inr v \<longleftrightarrow> p = Some v"
  by (cases p) (simp_all add: deref_def)

lemma deref_Inl: "deref p = Inl e \<longleftrightarrow> p = None \<and> e = NullDereference"
  by (cases p) (auto simp: deref_def)

lemma GetBlob_Inl: "GetBlob rq n = Inl e \<Longrightarrow> e = BlobNotFound"
  by (auto simp: GetBlob_def split: option.splits)

lemma enabled_fst:
  "fst (enabled s) = (if enablingChecked s then enabled_flag s else pathToModel s \<noteq> [])"
  by (simp add: enabled_def Let_def)

lemma enabled_checked: "enablingChecked s \<Longrightarrow> enabled s = (enabled_flag s, s)"
  by (simp add: enabled_def)

lemma enabled_snd_fields [simp]:
  "calls (snd (enabled s)) = calls s"
  "request (snd (enabled s)) = request s"
  "maxBatch (snd (enabled s)) = maxBatch s"
  "pathToModel (snd (enabled s)) = pathToModel s"
  "net (snd (enabled s)) = net s"
  "input (snd (enabled s)) = input s"
  "isAsync (snd (enabled s)) = isAsync s"
  "isBatchDynamic (snd (enabled s)) = isBatchDynamic s"
  "doRawOutputMessages (snd (enabled s)) = doRawOutputMessages s"
  "BaseDetection.more (snd (enabled s)) = BaseDetection.more s"
  "enablingChecked (snd (enabled s))"
  "enabled_flag (snd (enabled s)) = fst (enabled s)"
  by (simp_all add: enabled_def Let_def)

lemma enabled_snd_enquedFaces [simp]: "enquedFaces (snd (enabled s)) = enquedFaces s"
  by (simp add: enabled_def Let_def)

lemma enabled_snd_primary [simp]:
  "enquedFrames (snd (enabled s)) = enquedFrames s"
  "results (snd (enabled s)) = results s"
  "detectionThreshold (snd (enabled s)) = detectionThreshold s"
  "resultsFetched (snd (enabled s)) = resultsFetched s"
  "bb_enlarge_coefficient (snd (enabled s)) = bb_enlarge_coefficient s"
  "bb_dx_coefficient (snd (enabled s)) = bb_dx_coefficient s"
  "bb_dy_coefficient (snd (enabled s)) = bb_dy_coefficient s"
  by (simp_all add: enabled_def Let_def)

lemma enabled_slog: "fst (enabled s) \<Longrightarrow> slog (snd (enabled s)) = slog s"
  by (auto simp: enabled_def Let_def split: if_splits)

section \<open>Stages without a model\<close>

lemma inert_not_enabled: "inert s \<Longrightarrow> \<not> fst (enabled s)"
  by (simp add: inert_def enabled_fst)

lemma inert_enabled: "inert s \<Longrightarrow> inert (snd (enabled s))"
  by (simp add: inert_def enabled_fst)

lemma inert_Load_into: "inert s \<Longrightarrow> Load_into read ie deviceName dyn s = Inr (snd (enabled s))"
  by (simp add: Load_into_def split_beta inert_not_enabled)

lemma inert_enqueue: "inert s \<Longrightarrow> enqueue face s = Inr (snd (enabled s))"
  by (simp add: enqueue_def split_beta inert_not_enabled)

lemma inert_wait: "inert s \<Longrightarrow> BaseDetection_wait s = snd (enabled s)"
  by (simp add: BaseDetection_wait_def split_beta inert_not_enabled)

lemma submitRequest_nothing_enqueued: "enquedFaces s = 0 \<Longrightarrow> submitRequest infer s = Inr s"
  by (simp add: submitRequest_def)

lemma inert_FaceDetection_enqueue:
  "inert s \<Longrightarrow> FaceDetection_enqueue frame s = Inr (snd (enabled s))"
  by (simp add: FaceDetection_enqueue_def split_beta inert_not_enabled)

lemma inert_fetchResults: "inert s \<Longrightarrow> fetchResults s = Inr (snd (enabled s))"
  by (simp add: fetchResults_def split_beta inert_not_enabled)

lemma inert_secondary_step:
  assumes "inert s" and "enquedFaces s = 0" and "\<not> is_decode op"
  shows "\<exists>s'. secondary_step read decode infer op s = Inr s' \<and> inert s' \<and> enquedFaces s' = 0"
  using assms
  by (cases op)
     (simp_all add: secondary_step_def inert_Load_into inert_enqueue inert_wait
        submitRequest_nothing_enqueued inert_enabled)

lemma inert_secondary_run:
  assumes "inert s" and "enquedFaces s = 0" and "\<forall>op \<in> set ops. \<not> is_decode op"
  shows "\<exists>s'. run_ops (secondary_step read decode infer) ops s = Inr s' \<and> inert s' \<and>
           enquedFaces s' = 0"
  using assms
proof (induction ops arbitrary: s)
  case Nil
  then show ?case by simp
next
  case (Cons op ops)
  from Cons.prems obtain s1 where s1: "secondary_step read decode infer op s = Inr s1"
      and inv: "inert s1" "enquedFaces s1 = 0"
    using inert_secondary_step [of s op read decode infer] by auto
  from Cons.IH [OF inv] Cons.prems(3) s1 show ?case by simp
qed

lemma inert_primary_step:
  assumes "inert s" and "enquedFrames s = 0"
  shows "\<exists>s'. primary_step read infer op s = Inr s' \<and> inert s' \<and> enquedFrames s' = 0 \<and>
           results s' = results s"
  using assms
  by (cases op)
     (simp_all add: primary_step_def inert_Load_into inert_FaceDetection_enqueue inert_wait
        FaceDetection_submitRequest_def inert_fetchResults inert_enabled)

lemma inert_primary_run:
  assumes "inert s" and "enquedFrames s = 0"
  shows "\<exists>s'. run_ops (primary_step read infer) ops s = Inr s' \<and> inert s' \<and>
           enquedFrames s' = 0 \<and> results s' = results s"
  using assms
proof (induction ops arbitrary: s)
  case Nil
  then show ?case by simp
next
  case (Cons op ops)
  from Cons.prems obtain s1 where s1: "primary_step read infer op s = Inr s1"
      and inv: "inert s1" "enquedFrames s1 = 0" and r: "results s1 = results s"
    using inert_primary_step [of s read infer op] by auto
  from Cons.IH [OF inv] s1 r show ?case by auto
qed

lemma inert_SecondaryStage_init: "inert (SecondaryStage_init name [] device mb dyn async raw ext)"
  by (simp add: inert_def SecondaryStage_init_def)

lemma inert_FaceDetection_init: "inert (FaceDetection_init [] device mb dyn async thr raw e dx dy)"
  by (simp add: inert_def FaceDetection_init_def)

text \<open>
  C3, as the claim states it: on a stage with an empty model path every operation, decode
  included, is a no-op that makes no backend call. The claim fails for decode: the five
  \<^verbatim>\<open>operator[]\<close> do not test \<^verbatim>\<open>enabled()\<close>, they start with
  \<^verbatim>\<open>request->GetBlob\<close>, and the request of a stage without a model is the null
  pointer. On a disabled Antispoofing stage, decode of index 0 dereferences it.
\<close>

theorem disabled_decode_dereferences_null:
  "AntispoofingClassifier_at (AntispoofingClassifier_init [] ''CPU'' 16 False False False) 0
     = Inl NullDereference"
  by code_simp

text \<open>
  C3, amended: for every stage constructed with an empty model path, after every sequence
  of bind (\<^verbatim>\<open>Load::into\<close>), enqueue, submit and wait \<^verbatim>\<open>enabled()\<close> is false, no
  call into the backend has been made, no request exists and nothing is enqueued; on the
  primary detector this holds with \<^verbatim>\<open>fetchResults\<close> in the sequence as well, and the
  result list stays empty. (\<^verbatim>\<open>operator[]\<close> of a secondary stage is not part of the
  statement: it is unguarded.)
\<close>

theorem disabled_stage_stays_inert:
  "((\<forall>op \<in> set ops. \<not> is_decode op) \<longrightarrow>
     (\<exists>s'. run_ops (secondary_step read decode infer) ops
             (SecondaryStage_init name [] device mb dyn async raw ext) = Inr s' \<and>
           \<not> fst (enabled s') \<and> calls s' = [] \<and> request s' = None \<and> enquedFaces s' = 0)) \<and>
   (\<exists>s'. run_ops (primary_step read' infer') ops'
             (FaceDetection_init [] device' mb' dyn' async' thr raw' e dx dy) = Inr s' \<and>
           \<not> fst (enabled s') \<and> calls s' = [] \<and> request s' = None \<and> enquedFrames s' = 0 \<and>
           results s' = [])"
proof (intro conjI impI)
  assume nd: "\<forall>op \<in> set ops. \<not> is_decode op"
  have "enquedFaces (SecondaryStage_init name [] device mb dyn async raw ext) = 0"
    by (simp add: SecondaryStage_init_def)
  from inert_secondary_run [OF inert_SecondaryStage_init this nd, of read decode infer]
  show "\<exists>s'. run_ops (secondary_step read decode infer) ops
             (SecondaryStage_init name [] device mb dyn async raw ext) = Inr s' \<and>
           \<not> fst (enabled s') \<and> calls s' = [] \<and> request s' = None \<and> enquedFaces s' = 0"
    by (auto simp: inert_not_enabled) (auto simp: inert_def)
next
  have z: "enquedFrames (FaceDetection_init [] device' mb' dyn' async' thr raw' e dx dy) = 0"
    "results (FaceDetection_init [] device' mb' dyn' async' thr raw' e dx dy) = []"
    by (simp_all add: FaceDetection_init_def)
  from inert_primary_run [OF inert_FaceDetection_init z(1), of read' infer' ops'] z(2)
  show "\<exists>s'. run_ops (primary_step read' infer') ops'
             (FaceDetection_init [] device' mb' dyn' async' thr raw' e dx dy) = Inr s' \<and>
           \<not> fst (enabled s') \<and> calls s' = [] \<and> request s' = None \<and> enquedFrames s' = 0 \<and>
           results s' = []"
    by (auto simp: inert_not_enabled) (auto simp: inert_def)
qed

text \<open>The amended statement at a disabled Facial Landmarks stage and a disabled primary
  detector, each taken through bind, enqueue, submit and wait (and \<^verbatim>\<open>fetchResults\<close>).\<close>

theorem disabled_stage_stays_inert_witness:
  "(\<exists>s'. run_ops (secondary_step FacialLandmarksDetection_read
                    (FacialLandmarksDetection_at (\<lambda>d. Some (d ! 1))) id)
            [Op_load (landmarks_core [1, 70]) ''CPU'' True, Op_enqueue face64, Op_submit, Op_wait]
            (FacialLandmarksDetection_init [] ''CPU'' 16 True True False) = Inr s' \<and>
          \<not> fst (enabled s') \<and> calls s' = [] \<and> request s' = None \<and> enquedFaces s' = 0) \<and>
   (\<exists>s'. run_ops (primary_step (\<lambda>ie s. Inl ContractViolation) id)
            [Op_load (landmarks_core [1, 70]) ''CPU'' True, Op_enqueue frame640, Op_submit,
             Op_wait, Op_decode 0]
            (FaceDetection_init [] ''CPU'' 1 False True (1 / 2) False (f32 (12 / 10)) 1 1) = Inr s' \<and>
          \<not> fst (enabled s') \<and> calls s' = [] \<and> request s' = None \<and> enquedFrames s' = 0 \<and>
          results s' = [])"
  using disabled_stage_stays_inert
    [of "[Op_load (landmarks_core [1, 70]) ''CPU'' True, Op_enqueue face64, Op_submit, Op_wait]"
        FacialLandmarksDetection_read "FacialLandmarksDetection_at (\<lambda>d. Some (d ! 1))" id
        "''Facial Landmarks Estimation''" "''CPU''" 16 True True False
        "FacialLandmarksDetection.fields ''align_fc3''"
        "\<lambda>ie s. Inl ContractViolation"
        id
        "[Op_load (landmarks_core [1, 70]) ''CPU'' True, Op_enqueue frame640, Op_submit,
          Op_wait, Op_decode 0]"
        "''CPU''" 1 False True "1 / 2" False "f32 (12 / 10)" 1 1]
  by (simp add: FacialLandmarksDetection_init_def)

section \<open>The capacity of a secondary stage\<close>

lemma enqueue_at_capacity:
  assumes "fst (enabled s)" and "enquedFaces s = maxBatch s"
  shows "enqueue face s =
           Inr ((snd (enabled s))\<lparr>slog := slog (snd (enabled s)) @ [Warn_capacity (maxBatch s)]\<rparr>)"
  using assms by (simp add: enqueue_def split_beta Let_def)

lemma enqueue_count:
  assumes "enqueue face s = Inr s'"
  shows "maxBatch s' = maxBatch s \<and>
         (enquedFaces s' = enquedFaces s \<or>
          (enquedFaces s \<noteq> maxBatch s \<and> enquedFaces s' = enquedFaces s + 1))"
  using assms
  by (auto simp: enqueue_def split_beta Let_def bindE_eq_Inr split: if_splits)

lemma enqueue_enabled:
  assumes "enqueue face s = Inr s'" and "fst (enabled s)"
  shows "fst (enabled s')"
  using assms
  by (auto simp: enqueue_def split_beta Let_def bindE_eq_Inr enabled_fst split: if_splits)

lemma enqueue_all_enabled:
  assumes "enqueue_all faces s = Inr s'" and "fst (enabled s)"
  shows "fst (enabled s')"
  using assms
proof (induction faces arbitrary: s)
  case Nil
  then show ?case by simp
next
  case (Cons face faces)
  then show ?case by (auto simp: bindE_eq_Inr dest: enqueue_enabled)
qed

lemma enqueue_all_bounded:
  assumes "enqueue_all faces s = Inr s'" and "enquedFaces s \<le> maxBatch s"
  shows "enquedFaces s' \<le> maxBatch s' \<and> maxBatch s' = maxBatch s"
  using assms
proof (induction faces arbitrary: s)
  case Nil
  then show ?case by simp
next
  case (Cons face faces)
  from Cons.prems(1) obtain s1 where s1: "enqueue face s = Inr s1"
      and rest: "enqueue_all faces s1 = Inr s'"
    by (auto simp: bindE_eq_Inr)
  from enqueue_count [OF s1] Cons.prems(2)
  have "enquedFaces s1 \<le> maxBatch s1" and "maxBatch s1 = maxBatch s"
    by auto
  with Cons.IH [OF rest] show ?case by simp
qed

text \<open>The constructors start the counter at zero, so a stage whose \<^verbatim>\<open>maxBatch\<close> is not
  negative starts within its capacity.\<close>

lemma SecondaryStage_init_within_capacity:
  "enquedFaces (SecondaryStage_init name path device mb dyn async raw ext)
     \<le> maxBatch (SecondaryStage_init name path device mb dyn async raw ext) \<longleftrightarrow> 0 \<le> mb"
  by (simp add: SecondaryStage_init_def)

text \<open>
  C8. For every enabled secondary stage whose counter is within its capacity \<^verbatim>\<open>maxBatch\<close>
  (as it is after construction with a capacity that is not negative), after every sequence
  of \<^verbatim>\<open>enqueue\<close> calls the counter \<^verbatim>\<open>enquedFaces\<close> is at most \<^verbatim>\<open>maxBatch\<close>; and when
  it equals \<^verbatim>\<open>maxBatch\<close>, one more \<^verbatim>\<open>enqueue\<close> returns without an exception, leaves
  the counter and the calls into the backend as they are and logs the capacity warning.
\<close>

theorem enqueue_never_exceeds_maxBatch:
  assumes "fst (enabled s)" and "enquedFaces s \<le> maxBatch s"
      and "enqueue_all faces s = Inr s'"
  shows "enquedFaces s' \<le> maxBatch s \<and>
         (enquedFaces s' = maxBatch s \<longrightarrow>
            (\<exists>s''. enqueue another s' = Inr s'' \<and> enquedFaces s'' = enquedFaces s' \<and>
                   calls s'' = calls s' \<and> slog s'' = slog s' @ [Warn_capacity (maxBatch s)]))"
proof -
  have en: "fst (enabled s')"
    using assms(3,1) by (rule enqueue_all_enabled)
  have lg: "slog (snd (enabled s')) = slog s'"
    using en by (rule enabled_slog)
  from enqueue_all_bounded [OF assms(3,2)]
  have b: "enquedFaces s' \<le> maxBatch s'" "maxBatch s' = maxBatch s"
    by simp_all
  show ?thesis
    using b lg enqueue_at_capacity [OF en, of another] by simp
qed

text \<open>Three faces into a loaded Antispoofing stage with room for two: the counter stops at
  two, and a fourth call leaves it there.\<close>

theorem enqueue_never_exceeds_maxBatch_witness:
  "fst (enabled antispoofing_loaded) \<and>
   enquedFaces antispoofing_loaded \<le> maxBatch antispoofing_loaded \<and>
   maxBatch antispoofing_loaded = 2 \<and>
   (\<exists>s'. enqueue_all [face64, face64, face64] antispoofing_loaded = Inr s' \<and>
         enquedFaces s' = 2 \<and>
         (\<exists>s''. enqueue face64 s' = Inr s'' \<and> enquedFaces s'' = 2 \<and> calls s'' = calls s'))"
proof -
  have h1: "fst (enabled antispoofing_loaded)"
    by code_simp
  have h2: "enquedFaces antispoofing_loaded \<le> maxBatch antispoofing_loaded"
    by code_simp
  have mb: "maxBatch antispoofing_loaded = 2"
    by code_simp
  have "case enqueue_all [face64, face64, face64] antispoofing_loaded of
          Inl e \<Rightarrow> False | Inr s' \<Rightarrow> enquedFaces s' = 2"
    by code_simp
  then obtain s' where h3: "enqueue_all [face64, face64, face64] antispoofing_loaded = Inr s'"
      and n: "enquedFaces s' = 2"
    by (auto split: sum.splits)
  from enqueue_never_exceeds_maxBatch [OF h1 h2 h3, of face64] n mb h1 h2 h3
  show ?thesis by auto
qed

section \<open>Rounding\<close>

lemma expo_bounds:
  assumes "v \<noteq> 0"
  shows "2 powi (expo v) \<le> \<bar>v\<bar> \<and> \<bar>v\<bar> < 2 powi (expo v + 1)"
proof (cases "1 \<le> \<bar>v\<bar>")
  case True
  define n where "n = \<lfloor>\<bar>v\<bar>\<rfloor>"
  have n1: "1 \<le> n"
    using True by (simp add: n_def le_floor_iff)
  then have bl: "2 ^ nat (bitlen n - 1) \<le> n" "n < 2 ^ nat (bitlen n)"
    using bitlen_bounds [of n] by auto
  have "bitlen n \<noteq> 0"
    using n1 by (simp add: bitlen_eq_zero_iff)
  with bitlen_nonneg [of n] have bpos: "1 \<le> bitlen n"
    by linarith
  have e: "expo v = bitlen n - 1"
    using True by (simp add: expo_def n_def Let_def)
  have "(2::real) powi (bitlen n - 1) = of_int (2 ^ nat (bitlen n - 1))"
    using bpos by (simp add: power_int_def)
  also have "\<dots> \<le> of_int n"
    using bl(1) by (simp only: of_int_le_iff)
  also have "\<dots> \<le> \<bar>v\<bar>"
    by (simp add: n_def)
  finally have lo: "2 powi (expo v) \<le> \<bar>v\<bar>"
    by (simp add: e)
  have "\<bar>v\<bar> < of_int (n + 1)"
    unfolding n_def by linarith
  also have "\<dots> \<le> of_int (2 ^ nat (bitlen n))"
  proof -
    have "n + 1 \<le> 2 ^ nat (bitlen n)"
      using bl(2) by simp
    then show ?thesis by (simp only: of_int_le_iff)
  qed
  also have "\<dots> = (2::real) powi (bitlen n)"
    using bpos by (simp add: power_int_def)
  finally have "\<bar>v\<bar> < 2 powi (expo v + 1)"
    by (simp add: e)
  with lo show ?thesis ..
next
  case False
  define a where "a = \<bar>v\<bar>"
  have a: "0 < a" "a < 1"
    using assms False by (simp_all add: a_def)
  define m where "m = \<lceil>1 / a\<rceil> - 1"
  have inv1: "1 < 1 / a"
    using a by simp
  have m1: "1 \<le> m"
    using inv1 unfolding m_def by linarith
  have mlt: "of_int m < 1 / a"
    unfolding m_def by linarith
  have mge: "1 / a \<le> of_int (m + 1)"
    unfolding m_def by simp
  have bl: "2 ^ nat (bitlen m - 1) \<le> m" "m < 2 ^ nat (bitlen m)"
    using bitlen_bounds [of m] m1 by auto
  have "bitlen m \<noteq> 0"
    using m1 by (simp add: bitlen_eq_zero_iff)
  with bitlen_nonneg [of m] have bpos: "1 \<le> bitlen m"
    by linarith
  have e: "expo v = - bitlen m"
    using False by (simp add: expo_def m_def a_def Let_def)
  have "m + 1 \<le> 2 ^ nat (bitlen m)"
    using bl(2) by simp
  then have "(of_int (m + 1) :: real) \<le> of_int (2 ^ nat (bitlen m))"
    by (simp only: of_int_le_iff)
  with mge have "1 / a \<le> of_int (2 ^ nat (bitlen m))"
    by linarith
  also have "\<dots> = (2::real) powi (bitlen m)"
    using bpos by (simp add: power_int_def)
  finally have "1 / a \<le> 2 powi (bitlen m)" .
  then have "1 / (2 powi (bitlen m)) \<le> a"
    using a by (simp add: field_simps)
  then have lo: "2 powi (expo v) \<le> \<bar>v\<bar>"
    by (simp add: e a_def power_int_minus field_simps)
  have "(2::real) powi (bitlen m - 1) = of_int (2 ^ nat (bitlen m - 1))"
    using bpos by (simp add: power_int_def)
  also have "\<dots> \<le> of_int m"
    using bl(1) by (simp only: of_int_le_iff)
  also have "\<dots> < 1 / a"
    by (rule mlt)
  finally have "(2::real) powi (bitlen m - 1) < 1 / a" .
  then have "a < 1 / 2 powi (bitlen m - 1)"
    using a by (simp add: field_simps)
  also have "\<dots> = 2 powi (- bitlen m + 1)"
  proof -
    have "- bitlen m + 1 = - (bitlen m - 1)"
      by simp
    then show ?thesis
      by (simp only: power_int_minus) (simp add: field_simps)
  qed
  finally have "\<bar>v\<bar> < 2 powi (expo v + 1)"
    by (simp add: e a_def)
  with lo show ?thesis ..
qed

lemma rne_error: "\<bar>of_int (rne v) - v\<bar> \<le> 1 / 2"
  unfolding rne_def Let_def by (auto; linarith)

lemma rne_nonneg: "0 \<le> v \<Longrightarrow> 0 \<le> rne v"
  unfolding rne_def Let_def by (auto; linarith)

lemma fl_nonneg: "0 \<le> v \<Longrightarrow> 0 \<le> fl p v"
  by (simp add: fl_def Let_def rne_nonneg)

text \<open>The relative error of one rounding is at most \<open>2 powi (- p)\<close>.\<close>

lemma fl_error: "\<bar>fl p v - v\<bar> \<le> 2 powi (- int p) * \<bar>v\<bar>"
proof (cases "v = 0")
  case True
  then show ?thesis by (simp add: fl_def)
next
  case False
  define u :: real where "u = 2 powi (expo v - int p + 1)"
  have upos: "0 < u"
    by (simp add: u_def)
  have "fl p v = of_int (rne (v / u)) * u"
    using False by (simp add: fl_def u_def Let_def)
  then have "fl p v - v = (of_int (rne (v / u)) - v / u) * u"
    using upos by (simp add: field_simps)
  then have "\<bar>fl p v - v\<bar> = \<bar>of_int (rne (v / u)) - v / u\<bar> * u"
    using upos by (simp add: abs_mult)
  also have "\<dots> \<le> 1 / 2 * u"
    using rne_error [of "v / u"] upos by (intro mult_right_mono) auto
  also have "\<dots> = 2 powi (- int p) * 2 powi (expo v)"
    by (simp add: u_def power_int_add power_int_diff power_int_minus field_simps)
  also have "\<dots> \<le> 2 powi (- int p) * \<bar>v\<bar>"
    using expo_bounds [OF False] by (intro mult_left_mono) auto
  finally show ?thesis .
qed

lemma f64_error: "\<bar>f64 v - v\<bar> \<le> \<bar>v\<bar> / 2 ^ 53"
proof -
  have "(2::real) powi (- int 53) = 1 / 2 ^ 53"
    by (simp add: power_int_minus field_simps)
  with fl_error [of 53 v] show ?thesis
    by (simp add: f64_def)
qed

lemma f32_error: "\<bar>f32 v - v\<bar> \<le> \<bar>v\<bar> / 2 ^ 24"
proof -
  have "(2::real) powi (- int 24) = 1 / 2 ^ 24"
    by (simp add: power_int_minus field_simps)
  with fl_error [of 24 v] show ?thesis
    by (simp add: f32_def)
qed

lemma f64_nonneg: "0 \<le> v \<Longrightarrow> 0 \<le> f64 v"
  by (simp add: f64_def fl_nonneg)

section \<open>Facts about the latency tracker\<close>

text \<open>The two constants of the moving average: \<^verbatim>\<open>alpha\<close> and \<^verbatim>\<open>1.0 - alpha\<close>.\<close>

lemma alpha_value: "f64 (1 / 10) = 3602879701896397 / 36028797018963968"
  by code_simp

lemma one_minus_alpha_value:
  "f64 (32425917317067571 / 36028797018963968) = 8106479329266893 / 9007199254740992"
  by code_simp

lemma ema_nonneg: "0 \<le> s \<Longrightarrow> 0 \<le> d \<Longrightarrow> 0 \<le> ema s d"
  unfolding ema_def
  by (intro f64_nonneg add_nonneg_nonneg mult_nonneg_nonneg)
     (simp_all add: alpha_value one_minus_alpha_value)

lemma ema_bounds:
  assumes "0 \<le> s" and "0 \<le> d"
  shows "\<bar>ema s d - (9 / 10 * s + 1 / 10 * d)\<bar> \<le> (9 / 10 * s + 1 / 10 * d) / 2 ^ 51"
proof -
  define x1 where "x1 = s * (8106479329266893 / 9007199254740992 :: real)"
  define x2 where "x2 = d * (3602879701896397 / 36028797018963968 :: real)"
  define y1 where "y1 = f64 x1"
  define y2 where "y2 = f64 x2"
  have e: "ema s d = f64 (y1 + y2)"
    by (simp add: ema_def alpha_value one_minus_alpha_value x1_def x2_def y1_def y2_def)
  have x1: "0 \<le> x1"
    using assms by (simp add: x1_def)
  have x2: "0 \<le> x2"
    using assms by (simp add: x2_def)
  have b1: "\<bar>y1 - x1\<bar> \<le> x1 / 2 ^ 53"
    using f64_error [of x1] x1 by (simp add: y1_def)
  have b2: "\<bar>y2 - x2\<bar> \<le> x2 / 2 ^ 53"
    using f64_error [of x2] x2 by (simp add: y2_def)
  have y: "0 \<le> y1" "0 \<le> y2"
    using x1 x2 by (simp_all add: y1_def y2_def f64_nonneg)
  have b3: "\<bar>f64 (y1 + y2) - (y1 + y2)\<bar> \<le> (y1 + y2) / 2 ^ 53"
    using f64_error [of "y1 + y2"] y by simp
  show ?thesis
    using b1 b2 b3 assms unfolding abs_le_iff e x1_def x2_def by (simp add: field_simps)
qed

lemma ema_first:
  assumes "0 \<le> d"
  shows "\<bar>ema d d - d\<bar> \<le> d / 2 ^ 51"
  using ema_bounds [OF assms assms] by simp

lemma ema_second:
  assumes "0 \<le> d1" and "0 \<le> d2"
  shows "\<bar>ema (ema d1 d1) d2 - (9 / 10 * d1 + 1 / 10 * d2)\<bar> \<le> (d1 + d2) / 2 ^ 50"
proof -
  have s: "0 \<le> ema d1 d1"
    using assms by (simp add: ema_nonneg)
  show ?thesis
    using ema_first [OF assms(1)] ema_bounds [OF s assms(2)] assms
    unfolding abs_le_iff by (simp add: field_simps)
qed

lemma calculateDuration_smoothed:
  "smoothed_duration (calculateDuration ms t c) =
     ema (if smoothed_duration c < 0 then ms (t - last_call_start c) else smoothed_duration c)
         (ms (t - last_call_start c))"
  by (simp add: calculateDuration_def Let_def ema_def)

lemma calculateDuration_fields [simp]:
  "last_call_duration (calculateDuration ms t c) = ms (t - last_call_start c)"
  "last_call_start (calculateDuration ms t c) = t"
  "number_of_calls (calculateDuration ms t c) = number_of_calls c + 1"
  by (simp_all add: calculateDuration_def Let_def)

lemma setStartTime_fields [simp]:
  "smoothed_duration (setStartTime t c) = smoothed_duration c"
  "last_call_start (setStartTime t c) = t"
  by (simp_all add: setStartTime_def)

lemma calculateDuration_nonneg:
  assumes "0 \<le> ms (t - last_call_start c)"
  shows "0 \<le> smoothed_duration (calculateDuration ms t c)"
  using assms by (simp add: calculateDuration_smoothed ema_nonneg)

lemma ms_of_ns_nonneg: "0 \<le> d \<Longrightarrow> 0 \<le> ms_of_ns d"
  by (simp add: ms_of_ns_def f64_nonneg)

text \<open>
  C6, as the claim states it: the first \<^verbatim>\<open>finish\<close> sets the smoothed duration exactly
  to the first raw duration. \<^verbatim>\<open>calculateDuration\<close> seeds \<^verbatim>\<open>_smoothed_duration\<close>
  with the raw duration and then applies the averaging step to it all the same, in
  \<^verbatim>\<open>double\<close> arithmetic, where \<open>d \<cdot> (1.0 - 0.1) + d \<cdot> 0.1\<close> need not be \<open>d\<close>. On a
  clock of nanoseconds, a first call of 13 ms has the raw duration 13 and the smoothed
  duration \<open>13 + 2 powi (- 49)\<close>.
\<close>

theorem first_finish_not_exact:
  "last_call_duration (calculateDuration ms_of_ns 13000000 (setStartTime 0 CallStat_init)) = 13 \<and>
   smoothed_duration (calculateDuration ms_of_ns 13000000 (setStartTime 0 CallStat_init))
     = 13 + 1 / 2 ^ 49"
  by code_simp

text \<open>
  C6, amended: on a record without a completed call, the first \<^verbatim>\<open>finish\<close> with a raw
  duration \<open>d1 \<ge> 0\<close> sets the smoothed duration to \<open>ema d1 d1\<close>, the value of
  \<open>0.9 \<cdot> d1 + 0.1 \<cdot> d1\<close> in double arithmetic, which is \<open>d1\<close> up to a relative error of
  \<open>2 powi (- 51)\<close>; the second, with raw duration \<open>d2 \<ge> 0\<close>, sets it to the same step on
  that value and \<open>d2\<close>, which is \<open>0.9 \<cdot> d1 + 0.1 \<cdot> d2\<close> up to \<open>(d1 + d2) \<cdot> 2 powi (- 50)\<close>.
\<close>

theorem ema_seeded_up_to_rounding:
  assumes "smoothed_duration c < 0"
      and "0 \<le> ms (t1 - last_call_start c)" and "0 \<le> ms (t3 - t2)"
  shows "let d1 = ms (t1 - last_call_start c);
             c1 = calculateDuration ms t1 c;
             d2 = ms (t3 - t2);
             c2 = calculateDuration ms t3 (setStartTime t2 c1)
         in last_call_duration c1 = d1 \<and>
            smoothed_duration c1 = ema d1 d1 \<and>
            \<bar>smoothed_duration c1 - d1\<bar> \<le> d1 / 2 ^ 51 \<and>
            last_call_duration c2 = d2 \<and>
            smoothed_duration c2 = ema (smoothed_duration c1) d2 \<and>
            \<bar>smoothed_duration c2 - (9 / 10 * d1 + 1 / 10 * d2)\<bar> \<le> (d1 + d2) / 2 ^ 50"
proof -
  define d1 where "d1 = ms (t1 - last_call_start c)"
  define d2 where "d2 = ms (t3 - t2)"
  define c1 where "c1 = calculateDuration ms t1 c"
  have s1: "smoothed_duration c1 = ema d1 d1"
    using assms(1) by (simp add: c1_def calculateDuration_smoothed d1_def)
  have l1: "last_call_duration c1 = d1"
    by (simp add: c1_def d1_def)
  have nn: "\<not> smoothed_duration c1 < 0"
    using assms(2) ema_nonneg [of d1 d1] by (simp add: s1 d1_def)
  have s2: "smoothed_duration (calculateDuration ms t3 (setStartTime t2 c1))
              = ema (smoothed_duration c1) d2"
    using nn by (simp add: calculateDuration_smoothed d2_def)
  have l2: "last_call_duration (calculateDuration ms t3 (setStartTime t2 c1)) = d2"
    by (simp add: d2_def)
  from ema_first [of d1] ema_second [of d1 d2] assms(2,3) s1 s2 l1 l2
  show ?thesis
    unfolding Let_def d1_def [symmetric] d2_def [symmetric] c1_def [symmetric] by simp
qed

text \<open>A first call of 13 ms and a second of 7 ms.\<close>

theorem ema_seeded_up_to_rounding_witness:
  "smoothed_duration (setStartTime 0 CallStat_init) < 0 \<and>
   (let c1 = calculateDuration ms_of_ns 13000000 (setStartTime 0 CallStat_init);
        c2 = calculateDuration ms_of_ns 27000000 (setStartTime 20000000 c1)
    in last_call_duration c1 = 13 \<and> smoothed_duration c1 = ema 13 13 \<and>
       \<bar>smoothed_duration c1 - 13\<bar> \<le> 13 / 2 ^ 51 \<and>
       last_call_duration c2 = 7 \<and>
       \<bar>smoothed_duration c2 - (9 / 10 * 13 + 1 / 10 * 7)\<bar> \<le> (13 + 7) / 2 ^ 50)"
proof -
  have h1: "smoothed_duration (setStartTime 0 CallStat_init) < 0"
    by code_simp
  have d1: "ms_of_ns (13000000 - last_call_start (setStartTime 0 CallStat_init)) = 13"
    by code_simp
  have d2: "ms_of_ns (27000000 - 20000000) = 7"
    by code_simp
  have h2: "0 \<le> ms_of_ns (13000000 - last_call_start (setStartTime 0 CallStat_init))"
    by (simp only: d1)
  have h3: "0 \<le> ms_of_ns (27000000 - 20000000)"
    by (simp only: d2)
  note th = ema_seeded_up_to_rounding [OF h1 h2 h3, unfolded Let_def d1 d2]
  from th h1 show ?thesis
    unfolding Let_def by blast
qed

lemma Timer_start_record:
  "\<exists>c. Timer_at (Timer_start name t0 timers) name = Inr c \<and> last_call_start c = t0 \<and>
       smoothed_duration c = (case timers name of None \<Rightarrow> - 1 | Some c0 \<Rightarrow> smoothed_duration c0)"
  by (auto simp: Timer_start_def Timer_at_def Let_def CallStat_init_def setStartTime_def
      split: option.splits)

text \<open>
  C9. Let \<^verbatim>\<open>start\<close> be called at \<open>t0\<close> on a stage name that is new or whose record has no
  completed \<^verbatim>\<open>finish\<close> (the sentinel is negative), let the clock not run backwards and
  let \<open>ms\<close> turn differences that are not negative into counts that are not negative.
  Then \<^verbatim>\<open>getSmoothedDuration\<close> called at time \<open>t\<close> returns \<open>ms (t - t0)\<close>, the time
  elapsed since that start, which is not negative; after a \<^verbatim>\<open>finish\<close> the stored value
  is not negative and is what \<^verbatim>\<open>getSmoothedDuration\<close> returns at any time; and a stored
  value that is not negative stays so through every later start and finish.
\<close>

theorem smoothedDuration_live_until_first_finish:
  assumes "\<forall>d. 0 \<le> d \<longrightarrow> 0 \<le> ms d"
      and "timers name = None \<or> (\<exists>c0. timers name = Some c0 \<and> smoothed_duration c0 < 0)"
      and "t0 \<le> t" and "t0 \<le> t1"
  shows "(\<exists>c. Timer_at (Timer_start name t0 timers) name = Inr c \<and> smoothed_duration c < 0 \<and>
            getSmoothedDuration ms t c = ms (t - t0) \<and> 0 \<le> getSmoothedDuration ms t c) \<and>
         (\<exists>timers1 c1. Timer_finish ms name t1 (Timer_start name t0 timers) = Inr timers1 \<and>
            Timer_at timers1 name = Inr c1 \<and> 0 \<le> smoothed_duration c1 \<and>
            (\<forall>t'. getSmoothedDuration ms t' c1 = smoothed_duration c1)) \<and>
         (\<forall>c' t'. 0 \<le> smoothed_duration c' \<and> last_call_start c' \<le> t' \<longrightarrow>
            0 \<le> smoothed_duration (calculateDuration ms t' c') \<and>
            smoothed_duration (setStartTime t' c') = smoothed_duration c' \<and>
            getSmoothedDuration ms t' c' = smoothed_duration c')"
proof (intro conjI)
  from Timer_start_record [of name t0 timers] obtain c
    where c: "Timer_at (Timer_start name t0 timers) name = Inr c" "last_call_start c = t0"
      and sm: "smoothed_duration c = (case timers name of None \<Rightarrow> - 1 | Some c0 \<Rightarrow> smoothed_duration c0)"
    by blast
  from sm assms(2) have neg: "smoothed_duration c < 0"
    by auto
  have live: "getSmoothedDuration ms t c = ms (t - t0)"
    using neg c(2) by (simp add: getSmoothedDuration_def)
  from assms(1,3) have "0 \<le> ms (t - t0)"
    by simp
  with c neg live
  show "\<exists>c. Timer_at (Timer_start name t0 timers) name = Inr c \<and> smoothed_duration c < 0 \<and>
            getSmoothedDuration ms t c = ms (t - t0) \<and> 0 \<le> getSmoothedDuration ms t c"
    by auto
  define c1 where "c1 = calculateDuration ms t1 c"
  from assms(1,4) have "0 \<le> ms (t1 - last_call_start c)"
    by (simp add: c(2))
  then have nn: "0 \<le> smoothed_duration c1"
    unfolding c1_def by (rule calculateDuration_nonneg)
  have fin: "Timer_finish ms name t1 (Timer_start name t0 timers)
               = Inr ((Timer_start name t0 timers)(name \<mapsto> c1))"
    by (simp add: Timer_finish_def c(1) c1_def)
  have at: "Timer_at ((Timer_start name t0 timers)(name \<mapsto> c1)) name = Inr c1"
    by (simp add: Timer_at_def)
  from nn have "\<forall>t'. getSmoothedDuration ms t' c1 = smoothed_duration c1"
    by (simp add: getSmoothedDuration_def)
  with fin at nn
  show "\<exists>timers1 c1. Timer_finish ms name t1 (Timer_start name t0 timers) = Inr timers1 \<and>
            Timer_at timers1 name = Inr c1 \<and> 0 \<le> smoothed_duration c1 \<and>
            (\<forall>t'. getSmoothedDuration ms t' c1 = smoothed_duration c1)"
    by blast
  show "\<forall>c' t'. 0 \<le> smoothed_duration c' \<and> last_call_start c' \<le> t' \<longrightarrow>
            0 \<le> smoothed_duration (calculateDuration ms t' c') \<and>
            smoothed_duration (setStartTime t' c') = smoothed_duration c' \<and>
            getSmoothedDuration ms t' c' = smoothed_duration c'"
    using assms(1) by (auto simp: getSmoothedDuration_def intro!: calculateDuration_nonneg)
qed

text \<open>A start at 1 ms on a new name, a reading at 5 ms, a finish at 14 ms.\<close>

theorem smoothedDuration_live_until_first_finish_witness:
  "(\<exists>c. Timer_at (Timer_start ''detection'' 1000000 Map.empty) ''detection'' = Inr c \<and>
        smoothed_duration c < 0 \<and> getSmoothedDuration ms_of_ns 5000000 c = 4) \<and>
   (\<exists>timers1 c1. Timer_finish ms_of_ns ''detection'' 14000000
                    (Timer_start ''detection'' 1000000 Map.empty) = Inr timers1 \<and>
        Timer_at timers1 ''detection'' = Inr c1 \<and> 0 \<le> smoothed_duration c1 \<and>
        getSmoothedDuration ms_of_ns 99000000 c1 = smoothed_duration c1)"
proof -
  have h1: "\<forall>d. 0 \<le> d \<longrightarrow> 0 \<le> ms_of_ns d"
    by (simp add: ms_of_ns_nonneg)
  have h2: "(Map.empty :: Timer) ''detection'' = None \<or>
            (\<exists>c0. (Map.empty :: Timer) ''detection'' = Some c0 \<and> smoothed_duration c0 < 0)"
    by simp
  have v: "ms_of_ns (5000000 - 1000000) = 4"
    by code_simp
  note th = smoothedDuration_live_until_first_finish
    [OF h1 h2, of 1000000 5000000 14000000, unfolded v]
  from th show ?thesis
    by simp blast
qed

section \<open>Results of the primary detector\<close>

lemma emit_results:
  "r' \<in> set (fst (emit s i r acc)) \<Longrightarrow>
     r' \<in> set (fst acc) \<or> (r' = r \<and> detectionThreshold s < confidence r)"
  by (auto simp: emit_def Let_def split: if_splits)

lemma loop5_results:
  assumes "loop5 s detections labels i acc = Inr acc'" and "r \<in> set (fst acc')"
  shows "r \<in> set (fst acc) \<or>
         (detectionThreshold s < confidence r \<and> (\<exists>j. body5 s detections labels j = Inr (Some r)))"
  using assms
proof (induction s detections labels i acc rule: loop5.induct)
  case (1 s detections labels i acc)
  show ?case
  proof (cases "i < maxProposalCount s \<and> objectSize s = 5")
    case False
    with "1.prems" show ?thesis
      by (simp add: loop5.simps)
  next
    case True
    show ?thesis
    proof (cases "body5 s detections labels i")
      case (Inl e)
      with True "1.prems" show ?thesis
        by (simp add: loop5.simps)
    next
      case (Inr ro)
      show ?thesis
      proof (cases ro)
        case None
        with True Inr "1.prems" have "loop5 s detections labels (i + 1) acc = Inr acc'"
          by (simp add: loop5.simps)
        from "1.IH"(1) [OF True Inr None this "1.prems"(2)] show ?thesis .
      next
        case (Some r0)
        with True Inr "1.prems"
        have "loop5 s detections labels (i + 1) (emit s i r0 acc) = Inr acc'"
          by (simp add: loop5.simps)
        from "1.IH"(2) [OF True Inr Some this "1.prems"(2)]
        show ?thesis
          using emit_results [of r s i r0 acc] Inr Some by auto
      qed
    qed
  qed
qed

lemma loop7_results:
  assumes "loop7 s detections i acc = Inr acc'" and "r \<in> set (fst acc')"
  shows "r \<in> set (fst acc) \<or>
         (detectionThreshold s < confidence r \<and> (\<exists>j. body7 s detections j = Inr (Some r)))"
  using assms
proof (induction s detections i acc rule: loop7.induct)
  case (1 s detections i acc)
  show ?case
  proof (cases "i < maxProposalCount s \<and> objectSize s = 7")
    case False
    with "1.prems" show ?thesis
      by (simp add: loop7.simps)
  next
    case True
    show ?thesis
    proof (cases "at_ptr detections (i * objectSize s + 0)")
      case (Inl e)
      with True "1.prems" show ?thesis
        by (simp add: loop7.simps)
    next
      case (Inr image_id)
      note id = Inr
      show ?thesis
      proof (cases "image_id < 0")
        case True
        with \<open>i < maxProposalCount s \<and> objectSize s = 7\<close> id "1.prems" show ?thesis
          by (simp add: loop7.simps)
      next
        case nonneg: False
        show ?thesis
        proof (cases "body7 s detections i")
          case (Inl e)
          with True id nonneg "1.prems" show ?thesis
            by (simp add: loop7.simps)
        next
          case (Inr ro)
          show ?thesis
          proof (cases ro)
            case None
            with True id nonneg Inr "1.prems" have "loop7 s detections (i + 1) acc = Inr acc'"
              by (simp add: loop7.simps)
            from "1.IH"(1) [OF True id nonneg Inr None this "1.prems"(2)] show ?thesis .
          next
            case (Some r0)
            with True id nonneg Inr "1.prems"
            have "loop7 s detections (i + 1) (emit s i r0 acc) = Inr acc'"
              by (simp add: loop7.simps)
            from "1.IH"(2) [OF True id nonneg Inr Some this "1.prems"(2)]
            show ?thesis
              using emit_results [of r s i r0 acc] Inr Some by auto
          qed
        qed
      qed
    qed
  qed
qed

lemma decode_detections_results:
  assumes "decode_detections s rq = Inr acc" and "r \<in> set (fst acc)"
  shows "r \<in> set (results s) \<or>
         (detectionThreshold s < confidence r \<and>
          (\<exists>detections labels j. body5 s detections labels j = Inr (Some r) \<or>
                                  body7 s detections j = Inr (Some r)))"
proof -
  from assms(1) obtain outputBlob :: Blob and acc5 where
      acc5: "(if labels_output s \<noteq> []
              then bindE (GetBlob rq (labels_output s)) (\<lambda>labelsBlob.
                     loop5 s (floats outputBlob) (int32s labelsBlob) 0 (results s, slog s))
              else Inr (results s, slog s)) = Inr acc5"
      and l7: "loop7 s (floats outputBlob) 0 acc5 = Inr acc"
    unfolding decode_detections_def Let_def bindE_eq_Inr by blast
  from loop7_results [OF l7 assms(2)]
  consider "r \<in> set (fst acc5)"
    | "detectionThreshold s < confidence r" "\<exists>j. body7 s (floats outputBlob) j = Inr (Some r)"
    by blast
  then show ?thesis
  proof cases
    case 1
    show ?thesis
    proof (cases "labels_output s \<noteq> []")
      case False
      with acc5 1 show ?thesis by auto
    next
      case True
      with acc5 obtain labelsBlob :: Blob where
        "loop5 s (floats outputBlob) (int32s labelsBlob) 0 (results s, slog s) = Inr acc5"
        by (auto simp: bindE_eq_Inr)
      from loop5_results [OF this 1] show ?thesis by auto
    qed
  next
    case 2
    then show ?thesis by blast
  qed
qed

lemma fetchResults_enabled:
  assumes "fst (enabled s)"
  shows "fetchResults s =
     (let s2 = (snd (enabled s))\<lparr>results := []\<rparr> in
      if resultsFetched s2 then Inr s2
      else
        let s3 = s2\<lparr>resultsFetched := True\<rparr> in
        bindE (deref (request s3)) (\<lambda>rq.
        bindE (decode_detections s3 rq) (\<lambda>acc.
          Inr (s3\<lparr>results := fst acc, slog := snd acc\<rparr>))))"
  using assms by (simp add: fetchResults_def split_beta)

lemma body7_location:
  "body7 s detections j = Inr (Some r) \<Longrightarrow>
     \<exists>raw. location r = enlarge (bb_enlarge_coefficient s) (bb_dx_coefficient s)
                           (bb_dy_coefficient s) raw"
  by (auto simp: body7_def bindE_eq_Inr Let_def split: if_splits)

lemma body5_location:
  "body5 s detections labels j = Inr (Some r) \<Longrightarrow>
     \<exists>raw. location r = enlarge (bb_enlarge_coefficient s) (bb_dx_coefficient s)
                           (bb_dy_coefficient s) raw"
  by (auto simp: body5_def bindE_eq_Inr Let_def split: if_splits)

text \<open>What a fetch on an enabled stage emits: nothing when the results were fetched
  before, and otherwise results above the threshold whose box came out of \<open>enlarge\<close>.\<close>

lemma fetchResults_emitted:
  assumes "fst (enabled s)" and "fetchResults s = Inr s'" and "r \<in> set (results s')"
  shows "detectionThreshold s < confidence r \<and>
         (\<exists>raw. location r = enlarge (bb_enlarge_coefficient s) (bb_dx_coefficient s)
                                (bb_dy_coefficient s) raw)"
proof -
  define s3 where "s3 = (snd (enabled s))\<lparr>results := [], resultsFetched := True\<rparr>"
  have nf: "\<not> resultsFetched s"
    using assms by (auto simp: fetchResults_enabled Let_def)
  with assms(1,2) obtain rq acc where d: "decode_detections s3 rq = Inr acc"
      and s': "s' = s3\<lparr>results := fst acc, slog := snd acc\<rparr>"
    by (auto simp: fetchResults_enabled Let_def bindE_eq_Inr s3_def)
  from assms(3) s' have "r \<in> set (fst acc)"
    by simp
  from decode_detections_results [OF d this]
  have "detectionThreshold s3 < confidence r \<and>
          (\<exists>detections labels j. body5 s3 detections labels j = Inr (Some r) \<or>
                                  body7 s3 detections j = Inr (Some r))"
    by (simp add: s3_def)
  then have "detectionThreshold s3 < confidence r \<and>
         (\<exists>raw. location r = enlarge (bb_enlarge_coefficient s3) (bb_dx_coefficient s3)
                                (bb_dy_coefficient s3) raw)"
    using body5_location body7_location by blast
  then show ?thesis
    by (simp add: s3_def)
qed

subsection \<open>The detector on a frame with two faces\<close>

lemma f32_values:
  "f32 640 = 640" "f32 480 = 480" "f32 80 = 80" "f32 60 = 60" "f32 320 = 320"
  "f32 240 = 240" "f32 180 = 180" "f32 360 = 360"
  by code_simp+

lemma bindE_weak_cong: "m = m' \<Longrightarrow> bindE m f = bindE m' f"
  by simp

lemma Inr_projr: "\<not> isl v \<Longrightarrow> v = Inr (projr v)"
  by (cases v) simp_all

lemma detector_enqueued_value:
  "detector_enqueued = Inr (detector_loaded
     \<lparr>enablingChecked := True, enabled_flag := True,
      request := Some (net detector_loaded),
      calls := [Call_CreateInferRequest, Call_GetBlob ''data'', Call_matToBlob 0],
      width := 640, height := 480, enquedFrames := 1\<rparr>)"
  by (simp add: detector_enqueued_def FaceDetection_enqueue_def enabled_def detector_loaded_def
      FaceDetection_init_def frame640_def static_cast_float_def f32_values deref_def GetBlob_def
      Let_def)

lemma enlarge_value:
  "enlarge (3 / 2) 1 1 \<lparr>rect_x = 80, rect_y = 60, rect_width = 240, rect_height = 180\<rparr>
     = \<lparr>rect_x = 20, rect_y = - 30, rect_width = 360, rect_height = 360\<rparr>"
  by code_simp

lemma body7_first_row:
  assumes "objectSize s = 7" "detectionThreshold s = 1 / 2" "\<not> doRawOutputMessages s"
      "width s = 640" "height s = 480" "bb_enlarge_coefficient s = 3 / 2"
      "bb_dx_coefficient s = 1" "bb_dy_coefficient s = 1"
  shows "body7 s detections_two_faces 0 = Inr (Some \<lparr>label = 1, confidence = 7 / 8,
        location = \<lparr>rect_x = 20, rect_y = - 30, rect_width = 360, rect_height = 360\<rparr>\<rparr>)"
  by (simp add: assms body7_def detections_two_faces_def at_ptr_def static_cast_float_def
      static_cast_int_def f32_values enlarge_value cong: bindE_weak_cong)

lemma body7_second_row:
  assumes "objectSize s = 7" "detectionThreshold s = 1 / 2" "\<not> doRawOutputMessages s"
  shows "body7 s detections_two_faces 1 = Inr None"
  by (simp add: assms body7_def detections_two_faces_def at_ptr_def cong: bindE_weak_cong)

lemma loop7_two_faces:
  assumes "objectSize s = 7" "maxProposalCount s = 3" "detectionThreshold s = 1 / 2"
      "\<not> doRawOutputMessages s"
      "width s = 640" "height s = 480" "bb_enlarge_coefficient s = 3 / 2"
      "bb_dx_coefficient s = 1" "bb_dy_coefficient s = 1"
  shows "loop7 s detections_two_faces 0 acc = Inr (fst acc @ [\<lparr>label = 1, confidence = 7 / 8,
        location = \<lparr>rect_x = 20, rect_y = - 30, rect_width = 360, rect_height = 360\<rparr>\<rparr>],
        snd acc)"
proof -
  have at: "at_ptr detections_two_faces 0 = Inr 0" "at_ptr detections_two_faces 7 = Inr 0"
      "at_ptr detections_two_faces 14 = Inr (- 1)"
    by (simp_all add: detections_two_faces_def at_ptr_def)
  have l2: "loop7 s detections_two_faces 2 acc' = Inr acc'" for acc'
    by (subst loop7.simps) (simp add: assms at)
  have l1: "loop7 s detections_two_faces 1 acc' = Inr acc'" for acc'
    by (subst loop7.simps) (simp add: assms at body7_second_row l2)
  show ?thesis
    by (subst loop7.simps) (simp add: assms at body7_first_row l1 emit_def)
qed

lemma detector_fetch_value:
  assumes "detector_enqueued = Inr s"
  shows "fst (enabled s) \<and> enquedFrames s \<noteq> 0 \<and>
     fst (enabled (FaceDetection_submitRequest infer_two_faces s)) \<and>
     detectionThreshold (FaceDetection_submitRequest infer_two_faces s) = 1 / 2 \<and>
     bb_enlarge_coefficient (FaceDetection_submitRequest infer_two_faces s) = 3 / 2 \<and>
     bb_dx_coefficient (FaceDetection_submitRequest infer_two_faces s) = 1 \<and>
     bb_dy_coefficient (FaceDetection_submitRequest infer_two_faces s) = 1 \<and>
     (\<exists>s1. fetchResults (FaceDetection_submitRequest infer_two_faces s) = Inr s1 \<and>
        results s1 = [\<lparr>label = 1, confidence = 7 / 8,
          location = \<lparr>rect_x = 20, rect_y = - 30, rect_width = 360, rect_height = 360\<rparr>\<rparr>])"
proof -
  define rq :: InferRequest where
    "rq = [(''data'', \<lparr>dims = [1, 3, 300, 300], floats = [], int32s = []\<rparr>),
           (''detection_out'', \<lparr>dims = [1, 1, 3, 7], floats = detections_two_faces, int32s = []\<rparr>)]"
  define s' where "s' = FaceDetection_submitRequest infer_two_faces s"
  from assms have s: "s = detector_loaded
     \<lparr>enablingChecked := True, enabled_flag := True,
      request := Some (net detector_loaded),
      calls := [Call_CreateInferRequest, Call_GetBlob ''data'', Call_matToBlob 0],
      width := 640, height := 480, enquedFrames := 1\<rparr>"
    by (simp add: detector_enqueued_value)
  have f: "enablingChecked s'" "enabled_flag s'" "\<not> resultsFetched s'" "request s' = Some rq"
      "labels_output s' = []" "output_name s' = ''detection_out''"
      "objectSize s' = 7" "maxProposalCount s' = 3" "detectionThreshold s' = 1 / 2"
      "\<not> doRawOutputMessages s'" "width s' = 640" "height s' = 480"
      "bb_enlarge_coefficient s' = 3 / 2" "bb_dx_coefficient s' = 1" "bb_dy_coefficient s' = 1"
    by (simp_all add: s'_def s rq_def FaceDetection_submitRequest_def
        BaseDetection_submitRequest_def enabled_def detector_loaded_def FaceDetection_init_def
        infer_two_faces_def)
  have s0: "fst (enabled s)" "enquedFrames s \<noteq> 0"
    by (simp_all add: s enabled_def)
  have en: "fst (enabled s')" "snd (enabled s') = s'"
    using f(1,2) by (simp_all add: enabled_def)
  define s3 where "s3 = s'\<lparr>results := [], resultsFetched := True\<rparr>"
  have blob: "GetBlob rq ''detection_out''
      = Inr \<lparr>dims = [1, 1, 3, 7], floats = detections_two_faces, int32s = []\<rparr>"
    by (simp add: GetBlob_def rq_def)
  have dec: "decode_detections s3 rq = Inr ([\<lparr>label = 1, confidence = 7 / 8,
          location = \<lparr>rect_x = 20, rect_y = - 30, rect_width = 360, rect_height = 360\<rparr>\<rparr>],
          slog s3)"
    by (simp add: decode_detections_def s3_def f blob loop7_two_faces)
  have "fetchResults s' = Inr (s3\<lparr>results := [\<lparr>label = 1, confidence = 7 / 8,
          location = \<lparr>rect_x = 20, rect_y = - 30, rect_width = 360, rect_height = 360\<rparr>\<rparr>],
          slog := slog s3\<rparr>)"
    using dec by (simp add: fetchResults_enabled en f deref_def s3_def)
  with s0 en(1) f show ?thesis
    unfolding s'_def by simp
qed

lemma detector_enqueued_Inr: "\<exists>s. detector_enqueued = Inr s"
  by (simp add: detector_enqueued_value)

section \<open>The confidence threshold\<close>

text \<open>
  C5. Every detection that \<^verbatim>\<open>fetchResults\<close> of an enabled primary detector emits has a
  confidence strictly greater than the threshold, for every state of the stage: whichever
  of the two output formats is decoded and whether \<^verbatim>\<open>doRawOutputMessages\<close> is set or not.
\<close>

theorem emitted_confidence_above_threshold:
  assumes "fst (enabled s)" and "fetchResults s = Inr s'"
  shows "\<forall>r \<in> set (results s'). detectionThreshold s < confidence r"
  using fetchResults_emitted [OF assms] by blast

text \<open>The frame with two faces at threshold \<open>1 / 2\<close>: the face with confidence \<open>7 / 8\<close> is
  emitted, the one with confidence \<open>1 / 2\<close> is not.\<close>

theorem emitted_confidence_above_threshold_witness:
  "\<exists>s s1. detector_enqueued = Inr s \<and>
     fst (enabled (FaceDetection_submitRequest infer_two_faces s)) \<and>
     fetchResults (FaceDetection_submitRequest infer_two_faces s) = Inr s1 \<and>
     detectionThreshold (FaceDetection_submitRequest infer_two_faces s) = 1 / 2 \<and>
     results s1 = [\<lparr>label = 1, confidence = 7 / 8,
        location = \<lparr>rect_x = 20, rect_y = - 30, rect_width = 360, rect_height = 360\<rparr>\<rparr>] \<and>
     detectionThreshold (FaceDetection_submitRequest infer_two_faces s) < confidence (hd (results s1))"
proof -
  from detector_enqueued_Inr obtain s where e: "detector_enqueued = Inr s" ..
  from detector_fetch_value [OF e] obtain s1
    where en: "fst (enabled (FaceDetection_submitRequest infer_two_faces s))"
      and thr: "detectionThreshold (FaceDetection_submitRequest infer_two_faces s) = 1 / 2"
      and f: "fetchResults (FaceDetection_submitRequest infer_two_faces s) = Inr s1"
      and r: "results s1 = [\<lparr>label = 1, confidence = 7 / 8,
        location = \<lparr>rect_x = 20, rect_y = - 30, rect_width = 360, rect_height = 360\<rparr>\<rparr>]"
    by blast
  from emitted_confidence_above_threshold [OF en f] r
  have "detectionThreshold (FaceDetection_submitRequest infer_two_faces s) < confidence (hd (results s1))"
    by simp
  with e en thr f r show ?thesis by blast
qed

section \<open>Fetching twice\<close>

lemma fetchResults_checked:
  assumes "fetchResults s = Inr s'" and "fst (enabled s)"
  shows "enablingChecked s' \<and> enabled_flag s' \<and> resultsFetched s'"
  using assms
  by (auto simp: fetchResults_enabled Let_def bindE_eq_Inr enabled_fst split: if_splits)

lemma BaseDetection_submitRequest_enabled:
  "fst (enabled (BaseDetection_submitRequest infer s)) = fst (enabled s)"
  by (auto simp: BaseDetection_submitRequest_def split_beta enabled_fst split: option.splits)

lemma BaseDetection_submitRequest_fields:
  "resultsFetched (BaseDetection_submitRequest infer s) = resultsFetched s"
  "results (BaseDetection_submitRequest infer s) = results s"
  by (auto simp: BaseDetection_submitRequest_def split_beta enabled_def Let_def split: option.splits)

text \<open>
  C10. On an enabled primary detector with a frame enqueued, let \<^verbatim>\<open>submitRequest\<close> be
  called and let the first \<^verbatim>\<open>fetchResults\<close> return. Then the first fetch has put into the
  result list what the loops decode from the tensors of the request, and has set the flag;
  the second fetch returns the same stage with an empty result list; and so does every
  later one.
\<close>

theorem second_fetchResults_is_empty:
  assumes "fst (enabled s)" and "enquedFrames s \<noteq> 0"
      and "fetchResults (FaceDetection_submitRequest infer s) = Inr s1"
  shows "(\<exists>rq acc. request (FaceDetection_submitRequest infer s) = Some rq \<and>
            decode_detections
              ((snd (enabled (FaceDetection_submitRequest infer s)))
                 \<lparr>results := [], resultsFetched := True\<rparr>) rq = Inr acc \<and>
            results s1 = fst acc) \<and>
         resultsFetched s1 \<and>
         fetchResults s1 = Inr (s1\<lparr>results := []\<rparr>) \<and>
         fetchResults (s1\<lparr>results := []\<rparr>) = Inr (s1\<lparr>results := []\<rparr>)"
proof -
  define s' where "s' = FaceDetection_submitRequest infer s"
  have en0: "fst (enabled (s\<lparr>enquedFrames := 0, resultsFetched := False, results := []\<rparr>))"
    using assms(1) by (simp add: enabled_fst)
  have en': "fst (enabled s')"
    using assms(2) en0
    by (simp add: s'_def FaceDetection_submitRequest_def BaseDetection_submitRequest_enabled)
  have nf: "\<not> resultsFetched s'"
    using assms(2)
    by (simp add: s'_def FaceDetection_submitRequest_def BaseDetection_submitRequest_fields)
  from assms(3) en' nf
  have first: "\<exists>rq acc. request s' = Some rq \<and>
            decode_detections ((snd (enabled s'))\<lparr>results := [], resultsFetched := True\<rparr>) rq
              = Inr acc \<and>
            results s1 = fst acc"
    by (auto simp: s'_def [symmetric] fetchResults_enabled Let_def bindE_eq_Inr deref_Inr)
  from fetchResults_checked [OF assms(3) [folded s'_def] en']
  have chk: "enablingChecked s1" "enabled_flag s1" "resultsFetched s1"
    by simp_all
  have second: "fetchResults s1 = Inr (s1\<lparr>results := []\<rparr>)"
    using chk by (simp add: fetchResults_def enabled_checked)
  have third: "fetchResults (s1\<lparr>results := []\<rparr>) = Inr (s1\<lparr>results := []\<rparr>)"
    using chk by (simp add: fetchResults_def enabled_checked)
  from first chk(3) second third show ?thesis
    by (simp add: s'_def)
qed

text \<open>The frame with two faces: the first fetch yields one detection, the second fetch an
  empty list, so fetching twice is not fetching once.\<close>

theorem second_fetchResults_is_empty_witness:
  "\<exists>s s1 s2. detector_enqueued = Inr s \<and> fst (enabled s) \<and> enquedFrames s \<noteq> 0 \<and>
     fetchResults (FaceDetection_submitRequest infer_two_faces s) = Inr s1 \<and>
     results s1 = [\<lparr>label = 1, confidence = 7 / 8,
        location = \<lparr>rect_x = 20, rect_y = - 30, rect_width = 360, rect_height = 360\<rparr>\<rparr>] \<and>
     fetchResults s1 = Inr s2 \<and> results s2 = [] \<and> s2 \<noteq> s1"
proof -
  from detector_enqueued_Inr obtain s where e: "detector_enqueued = Inr s" ..
  from detector_fetch_value [OF e] obtain s1
    where en: "fst (enabled s)" and q: "enquedFrames s \<noteq> 0"
      and f: "fetchResults (FaceDetection_submitRequest infer_two_faces s) = Inr s1"
      and r: "results s1 = [\<lparr>label = 1, confidence = 7 / 8,
        location = \<lparr>rect_x = 20, rect_y = - 30, rect_width = 360, rect_height = 360\<rparr>\<rparr>]"
    by blast
  from second_fetchResults_is_empty [OF en q f]
  have two: "fetchResults s1 = Inr (s1\<lparr>results := []\<rparr>)"
    by simp
  have ne: "s1\<lparr>results := []\<rparr> \<noteq> s1"
  proof
    assume "s1\<lparr>results := []\<rparr> = s1"
    then have "results (s1\<lparr>results := []\<rparr>) = results s1"
      by simp
    with r show False by simp
  qed
  from e en q f r two ne show ?thesis
    by (intro exI [of _ s] exI [of _ s1] exI [of _ "s1\<lparr>results := []\<rparr>"]) simp
qed

section \<open>The enlarged box\<close>

lemma static_cast_int_error: "\<bar>of_int (static_cast_int v) - v\<bar> < 1"
  unfolding static_cast_int_def by (auto; linarith)

lemma static_cast_int_floor: "static_cast_int (std_floor v) = \<lfloor>v\<rfloor>"
  by (simp add: static_cast_int_def std_floor_def)

text \<open>The new size is the product \<open>e \<cdot> m\<close> up to the two roundings and the truncation.\<close>

lemma new_size_error:
  "\<bar>of_int (static_cast_int (f32 (e * static_cast_float m))) - e * of_int m\<bar>
     < 1 + \<bar>e * of_int m\<bar> / 2 ^ 22"
proof -
  define a where "a = f32 (of_int m)"
  define P where "P = e * of_int m"
  define Q where "Q = e * a"
  define b where "b = f32 Q"
  define n :: real where "n = of_int (static_cast_int b)"
  have "\<bar>Q - P\<bar> = \<bar>e\<bar> * \<bar>a - of_int m\<bar>"
    by (simp add: Q_def P_def abs_mult [symmetric] right_diff_distrib)
  also have "\<dots> \<le> \<bar>e\<bar> * (\<bar>of_int m\<bar> / 2 ^ 24)"
    using f32_error [of "of_int m"] by (intro mult_left_mono) (simp_all add: a_def)
  also have "\<dots> = \<bar>P\<bar> / 2 ^ 24"
    by (simp add: P_def abs_mult)
  finally have 1: "\<bar>Q - P\<bar> \<le> \<bar>P\<bar> / 2 ^ 24" .
  have 2: "\<bar>b - Q\<bar> \<le> \<bar>Q\<bar> / 2 ^ 24"
    using f32_error [of Q] by (simp add: b_def)
  have 3: "\<bar>n - b\<bar> < 1"
    unfolding n_def by (rule static_cast_int_error)
  have q: "\<bar>Q\<bar> \<le> \<bar>P\<bar> + \<bar>Q - P\<bar>"
    by linarith
  have t: "\<bar>n - P\<bar> \<le> \<bar>n - b\<bar> + \<bar>b - Q\<bar> + \<bar>Q - P\<bar>"
    by linarith
  define aP where "aP = \<bar>P\<bar>"
  define aQ where "aQ = \<bar>Q\<bar>"
  define d1 where "d1 = \<bar>Q - P\<bar>"
  define d2 where "d2 = \<bar>b - Q\<bar>"
  define d3 where "d3 = \<bar>n - b\<bar>"
  define d where "d = \<bar>n - P\<bar>"
  have "0 \<le> aP"
    by (simp add: aP_def)
  moreover have "d1 \<le> aP / 2 ^ 24" "d2 \<le> aQ / 2 ^ 24" "d3 < 1" "aQ \<le> aP + d1" "d \<le> d3 + d2 + d1"
    using 1 2 3 q t by (simp_all add: aP_def aQ_def d1_def d2_def d3_def d_def)
  ultimately have "d < 1 + aP / 2 ^ 22"
    by simp
  then have "\<bar>n - P\<bar> < 1 + \<bar>P\<bar> / 2 ^ 22"
    by (simp add: d_def aP_def)
  then show ?thesis
    by (simp add: n_def b_def Q_def a_def P_def static_cast_float_def)
qed

text \<open>
  C4, as the claim states it: the emitted box has \<open>newW = newH = e \<cdot> max w h\<close>. The new size
  is an \<^verbatim>\<open>int\<close>, the product cast by \<^verbatim>\<open>static_cast<int>\<close>: for the raw box
  \<open>(0, 0, 3, 3)\<close> and \<open>e = 1.5\<close> the code emits the width 4, and \<open>e \<cdot> max w h\<close> is \<open>4.5\<close>.
\<close>

theorem enlarged_width_is_truncated:
  "rect_width (enlarge (3 / 2) 1 1 \<lparr>rect_x = 0, rect_y = 0, rect_width = 3, rect_height = 3\<rparr>) = 4 \<and>
   (3 / 2 :: real) * of_int (max 3 3) = 9 / 2 \<and>
   real_of_int (rect_width (enlarge (3 / 2) 1 1
      \<lparr>rect_x = 0, rect_y = 0, rect_width = 3, rect_height = 3\<rparr>)) \<noteq> 3 / 2 * of_int (max 3 3)"
  by code_simp

text \<open>
  C4, amended: for every raw box \<open>(x, y, w, h)\<close> and coefficients \<open>(e, dx, dy)\<close> the emitted
  box is square, its size \<open>newSize\<close> is the single-precision product \<open>e \<cdot> max w h\<close> truncated
  towards zero to an integer (so within \<open>1 + \<bar>e \<cdot> max w h\<bar> \<cdot> 2 powi (- 22)\<close> of
  \<open>e \<cdot> max w h\<close>), and its origin is
  \<open>(x + w / 2 - \<lfloor>dx \<cdot> newSize / 2\<rfloor>, y + h / 2 - \<lfloor>dy \<cdot> newSize / 2\<rfloor>)\<close> with the truncating
  integer division of C++ for the centre and single-precision products and quotients under
  the floor; the box \<open>(0, 0, 100, 50)\<close> with \<open>e = 1.4\<close> (as a \<^verbatim>\<open>float\<close>), \<open>dx = dy = 1\<close>
  yields the box of size \<open>140 \<times> 140\<close> at \<open>(- 20, - 45)\<close>; and every box that
  \<^verbatim>\<open>fetchResults\<close> emits is such an enlarged box.
\<close>

theorem enlarged_box_formula:
  "(let newSize = static_cast_int (f32 (e * static_cast_float (max w h)))
    in enlarge e dx dy \<lparr>rect_x = x0, rect_y = y0, rect_width = w, rect_height = h\<rparr> =
         \<lparr>rect_x = (x0 + w sdiv 2) - \<lfloor>f32 (f32 (dx * static_cast_float newSize) / 2)\<rfloor>,
          rect_y = (y0 + h sdiv 2) - \<lfloor>f32 (f32 (dy * static_cast_float newSize) / 2)\<rfloor>,
          rect_width = newSize, rect_height = newSize\<rparr> \<and>
       \<bar>of_int newSize - e * of_int (max w h)\<bar> < 1 + \<bar>e * of_int (max w h)\<bar> / 2 ^ 22) \<and>
   enlarge (f32 (14 / 10)) 1 1 \<lparr>rect_x = 0, rect_y = 0, rect_width = 100, rect_height = 50\<rparr>
     = \<lparr>rect_x = - 20, rect_y = - 45, rect_width = 140, rect_height = 140\<rparr> \<and>
   (fst (enabled s) \<and> fetchResults s = Inr s' \<longrightarrow>
      (\<forall>r \<in> set (results s').
         \<exists>raw. location r = enlarge (bb_enlarge_coefficient s) (bb_dx_coefficient s)
                                (bb_dy_coefficient s) raw))"
proof (intro conjI impI)
  show "let newSize = static_cast_int (f32 (e * static_cast_float (max w h)))
    in enlarge e dx dy \<lparr>rect_x = x0, rect_y = y0, rect_width = w, rect_height = h\<rparr> =
         \<lparr>rect_x = (x0 + w sdiv 2) - \<lfloor>f32 (f32 (dx * static_cast_float newSize) / 2)\<rfloor>,
          rect_y = (y0 + h sdiv 2) - \<lfloor>f32 (f32 (dy * static_cast_float newSize) / 2)\<rfloor>,
          rect_width = newSize, rect_height = newSize\<rparr> \<and>
       \<bar>of_int newSize - e * of_int (max w h)\<bar> < 1 + \<bar>e * of_int (max w h)\<bar> / 2 ^ 22"
    unfolding Let_def
    by (intro conjI new_size_error) (simp add: enlarge_def Let_def static_cast_int_floor)
  show "enlarge (f32 (14 / 10)) 1 1 \<lparr>rect_x = 0, rect_y = 0, rect_width = 100, rect_height = 50\<rparr>
     = \<lparr>rect_x = - 20, rect_y = - 45, rect_width = 140, rect_height = 140\<rparr>"
    by code_simp
next
  assume "fst (enabled s) \<and> fetchResults s = Inr s'"
  then show "\<forall>r \<in> set (results s').
         \<exists>raw. location r = enlarge (bb_enlarge_coefficient s) (bb_dx_coefficient s)
                                (bb_dy_coefficient s) raw"
    using fetchResults_emitted [of s s'] by blast
qed

text \<open>The frame with two faces: the emitted box is the enlarged raw box
  \<open>(80, 60, 240, 180)\<close>.\<close>

theorem enlarged_box_formula_witness:
  "\<exists>s s1. detector_enqueued = Inr s \<and>
     fst (enabled (FaceDetection_submitRequest infer_two_faces s)) \<and>
     fetchResults (FaceDetection_submitRequest infer_two_faces s) = Inr s1 \<and>
     results s1 = [\<lparr>label = 1, confidence = 7 / 8,
        location = \<lparr>rect_x = 20, rect_y = - 30, rect_width = 360, rect_height = 360\<rparr>\<rparr>] \<and>
     (\<exists>raw. location (hd (results s1)) = enlarge (3 / 2) 1 1 raw) \<and>
     enlarge (3 / 2) 1 1 \<lparr>rect_x = 80, rect_y = 60, rect_width = 240, rect_height = 180\<rparr>
       = \<lparr>rect_x = 20, rect_y = - 30, rect_width = 360, rect_height = 360\<rparr>"
proof -
  from detector_enqueued_Inr obtain s where e: "detector_enqueued = Inr s" ..
  from detector_fetch_value [OF e] obtain s1
    where en: "fst (enabled (FaceDetection_submitRequest infer_two_faces s))"
      and c: "bb_enlarge_coefficient (FaceDetection_submitRequest infer_two_faces s) = 3 / 2"
        "bb_dx_coefficient (FaceDetection_submitRequest infer_two_faces s) = 1"
        "bb_dy_coefficient (FaceDetection_submitRequest infer_two_faces s) = 1"
      and f: "fetchResults (FaceDetection_submitRequest infer_two_faces s) = Inr s1"
      and r: "results s1 = [\<lparr>label = 1, confidence = 7 / 8,
        location = \<lparr>rect_x = 20, rect_y = - 30, rect_width = 360, rect_height = 360\<rparr>\<rparr>]"
    by blast
  from enlarged_box_formula [of _ _ _ _ _ _ _ "FaceDetection_submitRequest infer_two_faces s" s1]
    en f
  have "\<forall>r \<in> set (results s1). \<exists>raw. location r = enlarge (3 / 2) 1 1 raw"
    unfolding c by blast
  with r have "\<exists>raw. location (hd (results s1)) = enlarge (3 / 2) 1 1 raw"
    by simp
  with e en f r enlarge_value show ?thesis
    by blast
qed

section \<open>Decoding on the secondary stages\<close>

lemma landmarks_loop_Inr:
  assumes "landmarks_loop coords i e acc = Inr v"
  shows "\<forall>j. i \<le> j \<and> j < e \<longrightarrow>
           (2 * j) mod 2 ^ 64 < length coords \<and> (2 * j + 1) mod 2 ^ 64 < length coords"
  using assms
proof (induction coords i e acc rule: landmarks_loop.induct)
  case (1 coords i_lm end_lm normedLandmarks)
  show ?case
  proof (cases "i_lm < end_lm")
    case False
    then show ?thesis by simp
  next
    case True
    with "1.prems" obtain nx ny
      where nx: "at_ptr coords (int ((2 * i_lm) mod 2 ^ 64)) = Inr nx"
      and ny: "at_ptr coords (int ((2 * i_lm + 1) mod 2 ^ 64)) = Inr ny"
      and rest: "landmarks_loop coords (i_lm + 1) end_lm (normedLandmarks @ [nx, ny]) = Inr v"
      by (auto simp: landmarks_loop.simps [of coords i_lm] bindE_eq_Inr)
    from "1.IH" [OF True rest]
    have later: "\<forall>j. i_lm + 1 \<le> j \<and> j < end_lm \<longrightarrow>
        (2 * j) mod 2 ^ 64 < length coords \<and> (2 * j + 1) mod 2 ^ 64 < length coords" .
    show ?thesis
    proof (intro allI impI)
      fix j assume j: "i_lm \<le> j \<and> j < end_lm"
      show "(2 * j) mod 2 ^ 64 < length coords \<and> (2 * j + 1) mod 2 ^ 64 < length coords"
      proof (cases "j = i_lm")
        case True
        with nx ny show ?thesis by (simp add: at_ptr_Inr)
      next
        case False
        with j later show ?thesis by simp
      qed
    qed
  qed
qed

lemma landmarks_loop_value:
  assumes "landmarks_loop coords i e acc = Inr v"
  shows "v = acc @ concat (map (\<lambda>j. [coords ! ((2 * j) mod 2 ^ 64), coords ! ((2 * j + 1) mod 2 ^ 64)])
                       [i..<e])"
  using assms
proof (induction coords i e acc rule: landmarks_loop.induct)
  case (1 coords i_lm end_lm normedLandmarks)
  show ?case
  proof (cases "i_lm < end_lm")
    case False
    with "1.prems" show ?thesis
      by (simp add: landmarks_loop.simps [of coords i_lm])
  next
    case True
    with "1.prems" obtain nx ny
      where nx: "at_ptr coords (int ((2 * i_lm) mod 2 ^ 64)) = Inr nx"
      and ny: "at_ptr coords (int ((2 * i_lm + 1) mod 2 ^ 64)) = Inr ny"
      and rest: "landmarks_loop coords (i_lm + 1) end_lm (normedLandmarks @ [nx, ny]) = Inr v"
      by (auto simp: landmarks_loop.simps [of coords i_lm] bindE_eq_Inr)
    from nx ny have xy: "nx = coords ! ((2 * i_lm) mod 2 ^ 64)"
        "ny = coords ! ((2 * i_lm + 1) mod 2 ^ 64)"
      by (simp_all add: at_ptr_Inr)
    from "1.IH" [OF True rest] xy True show ?thesis
      by (simp add: upt_conv_Cons)
  qed
qed

lemma landmarks_loop_Inl:
  "landmarks_loop coords i e acc = Inl err \<Longrightarrow> err = OutOfBoundsRead"
proof (induction coords i e acc rule: landmarks_loop.induct)
  case (1 coords i_lm end_lm normedLandmarks)
  then show ?case
    by (cases "i_lm < end_lm")
       (auto simp: landmarks_loop.simps [of coords i_lm] bindE_eq_Inl at_ptr_Inl)
qed

lemma emotions_loop_Inr:
  assumes "emotions_loop ls vals pos m = Inr m'"
  shows "(\<forall>k < length ls. 0 \<le> pos + int k \<and> pos + int k < int (length vals)) \<and>
         dom m' = dom m \<union> set ls \<and>
         (\<forall>l. l \<notin> set ls \<longrightarrow> m' l = m l) \<and>
         (distinct ls \<longrightarrow> (\<forall>k < length ls. m' (ls ! k) = Some (vals ! nat (pos + int k))))"
  using assms
proof (induction ls arbitrary: pos m)
  case Nil
  then show ?case by simp
next
  case (Cons l ls)
  from Cons.prems obtain v where v: "at_ptr vals pos = Inr v"
      and rest: "emotions_loop ls vals (pos + 1) (m(l \<mapsto> v)) = Inr m'"
    by (auto simp: bindE_eq_Inr)
  from v have b: "0 \<le> pos" "pos < int (length vals)" "v = vals ! nat pos"
    by (simp_all add: at_ptr_Inr)
  note IH = Cons.IH [OF rest]
  have bounds: "\<forall>k < length (l # ls). 0 \<le> pos + int k \<and> pos + int k < int (length vals)"
  proof (intro allI impI)
    fix k assume "k < length (l # ls)"
    show "0 \<le> pos + int k \<and> pos + int k < int (length vals)"
    proof (cases k)
      case 0
      with b show ?thesis by simp
    next
      case (Suc j)
      with \<open>k < length (l # ls)\<close> IH
      have "0 \<le> pos + 1 + int j \<and> pos + 1 + int j < int (length vals)"
        by simp
      with Suc show ?thesis by (simp add: algebra_simps)
    qed
  qed
  have dom: "dom m' = dom m \<union> set (l # ls)"
    using IH by auto
  have other: "\<forall>l'. l' \<notin> set (l # ls) \<longrightarrow> m' l' = m l'"
    using IH by auto
  have vals: "distinct (l # ls) \<longrightarrow>
      (\<forall>k < length (l # ls). m' ((l # ls) ! k) = Some (vals ! nat (pos + int k)))"
  proof (intro impI allI)
    fix k assume d: "distinct (l # ls)" and k: "k < length (l # ls)"
    show "m' ((l # ls) ! k) = Some (vals ! nat (pos + int k))"
    proof (cases k)
      case 0
      from d have "l \<notin> set ls" by simp
      with IH have "m' l = (m(l \<mapsto> v)) l" by blast
      with 0 b show ?thesis by simp
    next
      case (Suc j)
      with k d IH have "m' (ls ! j) = Some (vals ! nat (pos + 1 + int j))"
        by simp
      moreover have "pos + 1 + int j = pos + int k"
        using Suc by simp
      ultimately show ?thesis
        using Suc by simp
    qed
  qed
  from bounds dom other vals show ?case by blast
qed

lemma emotions_loop_values:
  assumes "emotions_loop ls vals pos m = Inr m'"
  shows "\<forall>l \<in> set ls. \<exists>k < length ls. ls ! k = l \<and> m' l = Some (vals ! nat (pos + int k))"
  using assms
proof (induction ls arbitrary: pos m)
  case Nil
  then show ?case by simp
next
  case (Cons l ls)
  from Cons.prems obtain v where v: "at_ptr vals pos = Inr v"
      and rest: "emotions_loop ls vals (pos + 1) (m(l \<mapsto> v)) = Inr m'"
    by (auto simp: bindE_eq_Inr)
  from v have b: "v = vals ! nat pos"
    by (simp add: at_ptr_Inr)
  show ?case
  proof
    fix l' assume l': "l' \<in> set (l # ls)"
    show "\<exists>k < length (l # ls). (l # ls) ! k = l' \<and> m' l' = Some (vals ! nat (pos + int k))"
    proof (cases "l' \<in> set ls")
      case True
      with Cons.IH [OF rest] obtain k where k: "k < length ls" "ls ! k = l'"
          "m' l' = Some (vals ! nat (pos + 1 + int k))"
        by blast
      have "pos + 1 + int k = pos + int (Suc k)"
        by simp
      with k have "Suc k < length (l # ls) \<and> (l # ls) ! Suc k = l' \<and>
          m' l' = Some (vals ! nat (pos + int (Suc k)))"
        by simp
      then show ?thesis by blast
    next
      case False
      with l' have eq: "l' = l" by simp
      from False emotions_loop_Inr [OF rest] have "m' l' = (m(l \<mapsto> v)) l'"
        by blast
      with eq b have "0 < length (l # ls) \<and> (l # ls) ! 0 = l' \<and>
          m' l' = Some (vals ! nat (pos + int 0))"
        by simp
      then show ?thesis by blast
    qed
  qed
qed

lemma emotions_loop_Inl:
  "emotions_loop ls vals pos m = Inl e \<Longrightarrow> e = OutOfBoundsRead"
  by (induction ls arbitrary: pos m) (auto simp: bindE_eq_Inl at_ptr_Inl)

lemma emotions_loop_total:
  assumes "0 \<le> pos" and "pos + int (length ls) \<le> int (length vals)"
  shows "\<exists>m'. emotions_loop ls vals pos m = Inr m'"
  using assms
proof (induction ls arbitrary: pos m)
  case Nil
  then show ?case by simp
next
  case (Cons l ls)
  then have "at_ptr vals pos = Inr (vals ! nat pos)"
    by (simp add: at_ptr_def)
  moreover from Cons.prems
  have "0 \<le> pos + 1" "pos + 1 + int (length ls) \<le> int (length vals)"
    by simp_all
  from Cons.IH [OF this] obtain m'
    where "emotions_loop ls vals (pos + 1) (m(l \<mapsto> vals ! nat pos)) = Inr m'"
    by blast
  ultimately show ?case by simp
qed

lemma AgeGender_at_not_IndexOutOfRange:
  "AgeGenderDetection_at s idx \<noteq> Inl IndexOutOfRange"
  by (auto simp: AgeGenderDetection_at_def bindE_eq_Inl deref_Inl at_ptr_Inl dest: GetBlob_Inl)

lemma AgeGender_at_Inr:
  "AgeGenderDetection_at s idx = Inr r \<Longrightarrow>
     \<exists>rq ageBlob genderBlob. request s = Some rq \<and>
       GetBlob rq (outputAge s) = Inr ageBlob \<and> GetBlob rq (outputGender s) = Inr genderBlob \<and>
       0 \<le> idx \<and> idx < int (length (floats ageBlob)) \<and>
       idx * 2 + 1 < int (length (floats genderBlob)) \<and>
       r = \<lparr>age = f32 (floats ageBlob ! nat idx * 100),
            maleProb = floats genderBlob ! nat (idx * 2 + 1)\<rparr>"
  by (auto simp: AgeGenderDetection_at_def bindE_eq_Inr deref_Inr at_ptr_Inr)

lemma HeadPose_at_not_IndexOutOfRange:
  "HeadPoseDetection_at s idx \<noteq> Inl IndexOutOfRange"
  by (auto simp: HeadPoseDetection_at_def bindE_eq_Inl deref_Inl at_ptr_Inl dest: GetBlob_Inl)

lemma HeadPose_at_Inr:
  "HeadPoseDetection_at s idx = Inr r \<Longrightarrow>
     \<exists>rq angleR angleP angleY. request s = Some rq \<and>
       GetBlob rq (outputAngleR s) = Inr angleR \<and> GetBlob rq (outputAngleP s) = Inr angleP \<and>
       GetBlob rq (outputAngleY s) = Inr angleY \<and> 0 \<le> idx \<and>
       idx < int (length (floats angleR)) \<and> idx < int (length (floats angleP)) \<and>
       idx < int (length (floats angleY)) \<and>
       r = \<lparr>angle_r = floats angleR ! nat idx, angle_p = floats angleP ! nat idx,
            angle_y = floats angleY ! nat idx\<rparr>"
  by (auto simp: HeadPoseDetection_at_def bindE_eq_Inr deref_Inr at_ptr_Inr)

lemma Emotions_at_not_IndexOutOfRange:
  "EmotionsDetection_at s idx \<noteq> Inl IndexOutOfRange"
  by (auto simp: EmotionsDetection_at_def Let_def bindE_eq_Inl deref_Inl at_vec_def
      dest: GetBlob_Inl emotions_loop_Inl split: if_splits)

lemma Emotions_at_Inr:
  assumes "EmotionsDetection_at s idx = Inr m"
  shows "\<exists>rq emotionsBlob. request s = Some rq \<and>
       GetBlob rq (outputEmotions s) = Inr emotionsBlob \<and>
       (\<forall>k < length (emotionsVec s).
          0 \<le> idx * int (length (emotionsVec s)) + int k \<and>
          idx * int (length (emotionsVec s)) + int k < int (length (floats emotionsBlob))) \<and>
       dom m = set (emotionsVec s) \<and>
       (\<forall>l \<in> set (emotionsVec s). \<exists>k < length (emotionsVec s). emotionsVec s ! k = l \<and>
          m l = Some (floats emotionsBlob ! nat (idx * int (length (emotionsVec s)) + int k)))"
proof -
  from assms obtain rq and emotionsBlob :: Blob where rq: "request s = Some rq"
      and b: "GetBlob rq (outputEmotions s) = Inr emotionsBlob"
      and l: "emotions_loop (emotionsVec s) (floats emotionsBlob)
                (idx * int (length (emotionsVec s))) Map.empty = Inr m"
    by (auto simp: EmotionsDetection_at_def Let_def bindE_eq_Inr deref_Inr split: if_splits)
  from emotions_loop_Inr [OF l] have "dom m = set (emotionsVec s)"
    by simp
  with emotions_loop_Inr [OF l] emotions_loop_values [OF l] rq b show ?thesis by blast
qed

lemma Landmarks_at_not_IndexOutOfRange:
  "FacialLandmarksDetection_at getTensorChannels s idx \<noteq> Inl IndexOutOfRange"
  by (auto simp: FacialLandmarksDetection_at_def Let_def bindE_eq_Inl deref_Inl
      dest: GetBlob_Inl landmarks_loop_Inl split: option.splits)

lemma Landmarks_at_Inr:
  assumes "FacialLandmarksDetection_at getTensorChannels s idx = Inr v"
  shows "\<exists>rq landmarksBlob n_lm. request s = Some rq \<and>
       GetBlob rq (outputFacialLandmarksBlobName s) = Inr landmarksBlob \<and>
       getTensorChannels (dims landmarksBlob) = Some n_lm \<and>
       (\<forall>j. (n_lm div 2 * size_t idx) mod 2 ^ 64 \<le> j \<and>
            j < ((n_lm div 2 * size_t idx) mod 2 ^ 64 + n_lm div 2) mod 2 ^ 64 \<longrightarrow>
          (2 * j) mod 2 ^ 64 < length (floats landmarksBlob) \<and>
          (2 * j + 1) mod 2 ^ 64 < length (floats landmarksBlob)) \<and>
       v = concat (map (\<lambda>j. [floats landmarksBlob ! ((2 * j) mod 2 ^ 64),
                               floats landmarksBlob ! ((2 * j + 1) mod 2 ^ 64)])
             [(n_lm div 2 * size_t idx) mod 2 ^ 64 ..<
              ((n_lm div 2 * size_t idx) mod 2 ^ 64 + n_lm div 2) mod 2 ^ 64])"
proof -
  from assms obtain rq and landmarksBlob :: Blob and n_lm where rq: "request s = Some rq"
      and b: "GetBlob rq (outputFacialLandmarksBlobName s) = Inr landmarksBlob"
      and n: "getTensorChannels (dims landmarksBlob) = Some n_lm"
      and l: "landmarks_loop (floats landmarksBlob) ((n_lm div 2 * size_t idx) mod 2 ^ 64)
                (((n_lm div 2 * size_t idx) mod 2 ^ 64 + n_lm div 2) mod 2 ^ 64) [] = Inr v"
    by (auto simp: FacialLandmarksDetection_at_def Let_def bindE_eq_Inr deref_Inr
        split: option.splits)
  from landmarks_loop_Inr [OF l] landmarks_loop_value [OF l] rq b n show ?thesis
    by (intro exI [of _ rq] exI [of _ landmarksBlob] exI [of _ n_lm]) simp
qed

lemma Antispoofing_at_not_IndexOutOfRange:
  "AntispoofingClassifier_at s idx \<noteq> Inl IndexOutOfRange"
  by (auto simp: AntispoofingClassifier_at_def bindE_eq_Inl deref_Inl at_ptr_Inl dest: GetBlob_Inl)

lemma Antispoofing_at_Inr:
  "AntispoofingClassifier_at s idx = Inr r \<Longrightarrow>
     \<exists>rq ProbBlob. request s = Some rq \<and> GetBlob rq (prob_output s) = Inr ProbBlob \<and>
       0 \<le> 2 * idx \<and> 2 * idx < int (length (floats ProbBlob)) \<and>
       r = f32 (floats ProbBlob ! nat (2 * idx) * 100)"
  by (auto simp: AntispoofingClassifier_at_def bindE_eq_Inr deref_Inr at_ptr_Inr)

subsection \<open>Decodes on concrete tensors\<close>

lemma f32_percent: "f32 50 = 50" "f32 75 = 75"
  by code_simp+

lemma agegender_after_one_face_value:
  "agegender_after_one_face = Inr (agegender_loaded
     \<lparr>enablingChecked := True, enabled_flag := True,
      request := Some (net agegender_loaded),
      calls := [Call_CreateInferRequest, Call_GetBlob ''data'', Call_matToBlob 0, Call_Infer]\<rparr>)"
  by (simp add: agegender_after_one_face_def enqueue_def submitRequest_def
      BaseDetection_submitRequest_def enabled_def agegender_loaded_def AgeGenderDetection_init_def
      SecondaryStage_init_def AgeGenderDetection.defs deref_def GetBlob_def Let_def)

lemma agegender_decode_value:
  assumes "agegender_after_one_face = Inr s"
  shows "enquedFaces s = 0 \<and> maxBatch s = 2 \<and>
         AgeGenderDetection_at s 1 = Inr \<lparr>age = 50, maleProb = 1 / 2\<rparr>"
  using assms unfolding agegender_after_one_face_value
  by (auto simp: AgeGenderDetection_at_def agegender_loaded_def AgeGenderDetection_init_def
      SecondaryStage_init_def AgeGenderDetection.defs deref_def GetBlob_def at_ptr_def f32_percent)

lemma headpose_decode_value:
  "HeadPoseDetection_at headpose_decoding 0 = Inr \<lparr>angle_r = - 3, angle_p = 5, angle_y = 12\<rparr>"
  by (simp add: HeadPoseDetection_at_def headpose_decoding_def HeadPoseDetection_init_def
      SecondaryStage_init_def HeadPoseDetection.defs deref_def GetBlob_def at_ptr_def)

lemma landmarks_decode_value:
  "FacialLandmarksDetection_at (\<lambda>d. Some (d ! 1)) landmarks_decoding 0
     = Inr [1 / 4, 1 / 2, 3 / 4, 1 / 8]"
proof -
  have l: "landmarks_loop [1 / 4, 1 / 2, 3 / 4, 1 / 8] 0 2 [] = Inr [1 / 4, 1 / 2, 3 / 4, 1 / 8]"
    by (simp add: landmarks_loop.simps [of _ 0] landmarks_loop.simps [of _ "Suc 0"]
        landmarks_loop.simps [of _ 2] landmarks_loop.simps [of _ "Suc (Suc 0)"] at_ptr_def)
  show ?thesis
    by (simp add: FacialLandmarksDetection_at_def landmarks_decoding_def
        FacialLandmarksDetection_init_def SecondaryStage_init_def FacialLandmarksDetection.defs
        deref_def GetBlob_def size_t_def l)
qed

text \<open>With the index \<open>- 1\<close> the bounds of the loop are \<open>2 ^ 64 - 2\<close> and \<open>0\<close>: nothing is
  read and the vector of landmarks is empty.\<close>

lemma landmarks_decode_negative_index:
  "FacialLandmarksDetection_at (\<lambda>d. Some (d ! 1)) landmarks_decoding (- 1) = Inr []"
  by (simp add: FacialLandmarksDetection_at_def landmarks_decoding_def
      FacialLandmarksDetection_init_def SecondaryStage_init_def FacialLandmarksDetection.defs
      deref_def GetBlob_def size_t_def landmarks_loop.simps [of _ _ 0])

lemma antispoofing_decode_value:
  "AntispoofingClassifier_at antispoofing_decoding 0 = Inr 75"
  by (simp add: AntispoofingClassifier_at_def antispoofing_decoding_def antispoofing_loaded_def
      AntispoofingClassifier_init_def SecondaryStage_init_def AntispoofingClassifier.defs
      deref_def GetBlob_def at_ptr_def f32_percent)

lemma emotions_decode_value:
  "EmotionsDetection_at (emotions_decoding [l0, l1, l2, l3, l4, l5, l6]) 0
     = Inr [l0 \<mapsto> 1 / 2, l1 \<mapsto> 1 / 8, l2 \<mapsto> 1 / 16, l3 \<mapsto> 1 / 16, l4 \<mapsto> 1 / 8,
            l5 \<mapsto> 1 / 32, l6 \<mapsto> 3 / 32]"
  by (simp add: EmotionsDetection_at_def emotions_decoding_def EmotionsDetection_init_def
      SecondaryStage_init_def EmotionsDetection.defs deref_def GetBlob_def at_vec_def at_ptr_def)

section \<open>Decode and the size of the submitted batch\<close>

text \<open>
  C1, as the claim states it: decode of an index outside of \<open>[0, lastSubmittedBatch)\<close> fails
  with IndexOutOfRange. The \<^verbatim>\<open>operator[]\<close> index the mapped buffers without any test, and
  \<^verbatim>\<open>submitRequest\<close> resets the counter, so the size of the submitted batch is not even kept.
  On an Age/Gender stage with room for two faces, after one face has been enqueued and
  submitted, decode of index 1 returns what the tensors hold at index 1.
\<close>

theorem decode_beyond_submitted_batch:
  "bindE agegender_after_one_face (\<lambda>s. AgeGenderDetection_at s 1)
     = Inr \<lparr>age = 50, maleProb = 1 / 2\<rparr>"
proof -
  obtain s where s: "agegender_after_one_face = Inr s"
    by (simp add: agegender_after_one_face_value)
  from agegender_decode_value [OF s] show ?thesis
    by (simp add: s)
qed

text \<open>
  C1, amended: on each of the five secondary stages, decode does not depend on the counter
  of enqueued faces and never fails with IndexOutOfRange; whenever it returns a result, the
  stage has a request and the tensors it names, every element it has read lies inside the
  buffer of its tensor, and the result is made of the elements at the positions the index
  selects, whatever the size of the last submitted batch was. (A read outside of the
  buffer is undefined behaviour: \<open>OutOfBoundsRead\<close>.)
\<close>

theorem decode_is_not_checked_against_batch:
  "(AgeGenderDetection_at (ag\<lparr>enquedFaces := n\<rparr>) idx = AgeGenderDetection_at ag idx \<and>
    AgeGenderDetection_at ag idx \<noteq> Inl IndexOutOfRange \<and>
    (\<forall>r. AgeGenderDetection_at ag idx = Inr r \<longrightarrow>
       (\<exists>rq ageBlob genderBlob. request ag = Some rq \<and>
          GetBlob rq (outputAge ag) = Inr ageBlob \<and> GetBlob rq (outputGender ag) = Inr genderBlob \<and>
          0 \<le> idx \<and> idx < int (length (floats ageBlob)) \<and>
          idx * 2 + 1 < int (length (floats genderBlob)) \<and>
          r = \<lparr>age = f32 (floats ageBlob ! nat idx * 100),
               maleProb = floats genderBlob ! nat (idx * 2 + 1)\<rparr>))) \<and>
   (HeadPoseDetection_at (hp\<lparr>enquedFaces := n\<rparr>) idx = HeadPoseDetection_at hp idx \<and>
    HeadPoseDetection_at hp idx \<noteq> Inl IndexOutOfRange \<and>
    (\<forall>r. HeadPoseDetection_at hp idx = Inr r \<longrightarrow>
       (\<exists>rq angleR angleP angleY. request hp = Some rq \<and>
          GetBlob rq (outputAngleR hp) = Inr angleR \<and> GetBlob rq (outputAngleP hp) = Inr angleP \<and>
          GetBlob rq (outputAngleY hp) = Inr angleY \<and> 0 \<le> idx \<and>
          idx < int (length (floats angleR)) \<and> idx < int (length (floats angleP)) \<and>
          idx < int (length (floats angleY)) \<and>
          r = \<lparr>angle_r = floats angleR ! nat idx, angle_p = floats angleP ! nat idx,
               angle_y = floats angleY ! nat idx\<rparr>))) \<and>
   (EmotionsDetection_at (em\<lparr>enquedFaces := n\<rparr>) idx = EmotionsDetection_at em idx \<and>
    EmotionsDetection_at em idx \<noteq> Inl IndexOutOfRange \<and>
    (\<forall>m. EmotionsDetection_at em idx = Inr m \<longrightarrow>
       (\<exists>rq emotionsBlob. request em = Some rq \<and>
          GetBlob rq (outputEmotions em) = Inr emotionsBlob \<and>
          (\<forall>k < length (emotionsVec em).
             0 \<le> idx * int (length (emotionsVec em)) + int k \<and>
             idx * int (length (emotionsVec em)) + int k < int (length (floats emotionsBlob))) \<and>
          dom m = set (emotionsVec em) \<and>
          (\<forall>l \<in> set (emotionsVec em). \<exists>k < length (emotionsVec em). emotionsVec em ! k = l \<and>
             m l = Some (floats emotionsBlob ! nat (idx * int (length (emotionsVec em)) + int k)))))) \<and>
   (FacialLandmarksDetection_at getTensorChannels (lm\<lparr>enquedFaces := n\<rparr>) idx
      = FacialLandmarksDetection_at getTensorChannels lm idx \<and>
    FacialLandmarksDetection_at getTensorChannels lm idx \<noteq> Inl IndexOutOfRange \<and>
    (\<forall>v. FacialLandmarksDetection_at getTensorChannels lm idx = Inr v \<longrightarrow>
       (\<exists>rq landmarksBlob n_lm. request lm = Some rq \<and>
          GetBlob rq (outputFacialLandmarksBlobName lm) = Inr landmarksBlob \<and>
          getTensorChannels (dims landmarksBlob) = Some n_lm \<and>
          (\<forall>j. (n_lm div 2 * size_t idx) mod 2 ^ 64 \<le> j \<and>
               j < ((n_lm div 2 * size_t idx) mod 2 ^ 64 + n_lm div 2) mod 2 ^ 64 \<longrightarrow>
             (2 * j) mod 2 ^ 64 < length (floats landmarksBlob) \<and>
             (2 * j + 1) mod 2 ^ 64 < length (floats landmarksBlob)) \<and>
          v = concat (map (\<lambda>j. [floats landmarksBlob ! ((2 * j) mod 2 ^ 64),
                                  floats landmarksBlob ! ((2 * j + 1) mod 2 ^ 64)])
                [(n_lm div 2 * size_t idx) mod 2 ^ 64 ..<
                 ((n_lm div 2 * size_t idx) mod 2 ^ 64 + n_lm div 2) mod 2 ^ 64])))) \<and>
   (AntispoofingClassifier_at (sp\<lparr>enquedFaces := n\<rparr>) idx = AntispoofingClassifier_at sp idx \<and>
    AntispoofingClassifier_at sp idx \<noteq> Inl IndexOutOfRange \<and>
    (\<forall>r. AntispoofingClassifier_at sp idx = Inr r \<longrightarrow>
       (\<exists>rq ProbBlob. request sp = Some rq \<and> GetBlob rq (prob_output sp) = Inr ProbBlob \<and>
          0 \<le> 2 * idx \<and> 2 * idx < int (length (floats ProbBlob)) \<and>
          r = f32 (floats ProbBlob ! nat (2 * idx) * 100))))"
proof (intro conjI allI impI)
  show "AgeGenderDetection_at (ag\<lparr>enquedFaces := n\<rparr>) idx = AgeGenderDetection_at ag idx"
    by (simp add: AgeGenderDetection_at_def)
  show "HeadPoseDetection_at (hp\<lparr>enquedFaces := n\<rparr>) idx = HeadPoseDetection_at hp idx"
    by (simp add: HeadPoseDetection_at_def)
  show "EmotionsDetection_at (em\<lparr>enquedFaces := n\<rparr>) idx = EmotionsDetection_at em idx"
    by (simp add: EmotionsDetection_at_def cong: if_cong)
  show "FacialLandmarksDetection_at getTensorChannels (lm\<lparr>enquedFaces := n\<rparr>) idx
      = FacialLandmarksDetection_at getTensorChannels lm idx"
    by (simp add: FacialLandmarksDetection_at_def)
  show "AntispoofingClassifier_at (sp\<lparr>enquedFaces := n\<rparr>) idx = AntispoofingClassifier_at sp idx"
    by (simp add: AntispoofingClassifier_at_def)
qed (fact AgeGender_at_not_IndexOutOfRange HeadPose_at_not_IndexOutOfRange
      Emotions_at_not_IndexOutOfRange Landmarks_at_not_IndexOutOfRange
      Antispoofing_at_not_IndexOutOfRange
    | erule AgeGender_at_Inr HeadPose_at_Inr Emotions_at_Inr Landmarks_at_Inr
      Antispoofing_at_Inr)+

text \<open>One decode on each stage; on the Age/Gender stage it is the decode of index 1 after a
  batch of one face, with the counter at zero and set back to one.\<close>

theorem decode_is_not_checked_against_batch_witness:
  "(\<exists>s. agegender_after_one_face = Inr s \<and>
        AgeGenderDetection_at s 1 = Inr \<lparr>age = 50, maleProb = 1 / 2\<rparr> \<and>
        AgeGenderDetection_at (s\<lparr>enquedFaces := 1\<rparr>) 1 = Inr \<lparr>age = 50, maleProb = 1 / 2\<rparr>) \<and>
   HeadPoseDetection_at headpose_decoding 0 = Inr \<lparr>angle_r = - 3, angle_p = 5, angle_y = 12\<rparr> \<and>
   EmotionsDetection_at (emotions_decoding seven_emotions) 0
     = Inr [''neutral'' \<mapsto> 1 / 2, ''happy'' \<mapsto> 1 / 8, ''sad'' \<mapsto> 1 / 16, ''surprise'' \<mapsto> 1 / 16,
            ''anger'' \<mapsto> 1 / 8, ''fear'' \<mapsto> 1 / 32, ''disgust'' \<mapsto> 3 / 32] \<and>
   FacialLandmarksDetection_at (\<lambda>d. Some (d ! 1)) landmarks_decoding 0
     = Inr [1 / 4, 1 / 2, 3 / 4, 1 / 8] \<and>
   AntispoofingClassifier_at antispoofing_decoding 0 = Inr 75"
proof -
  obtain s where s: "agegender_after_one_face = Inr s"
    by (simp add: agegender_after_one_face_value)
  from agegender_decode_value [OF s]
  have d: "AgeGenderDetection_at s 1 = Inr \<lparr>age = 50, maleProb = 1 / 2\<rparr>"
    by simp
  from decode_is_not_checked_against_batch [where ag = s and n = 1 and idx = 1]
  have "AgeGenderDetection_at (s\<lparr>enquedFaces := 1\<rparr>) 1 = AgeGenderDetection_at s 1"
    by blast
  with s d headpose_decode_value landmarks_decode_value antispoofing_decode_value
    emotions_decode_value [of "''neutral''" "''happy''" "''sad''" "''surprise''" "''anger''"
      "''fear''" "''disgust''"]
  show ?thesis
    by (auto simp: seven_emotions_def)
qed

section \<open>Decoding emotions\<close>

text \<open>
  The result of \<^verbatim>\<open>EmotionsDetection::operator[]\<close> is a \<^verbatim>\<open>std::map\<close> keyed by the labels, so
  it has one entry for each label only if the labels of \<^verbatim>\<open>emotionsVec\<close> are pairwise
  distinct, as the labels of a label set are: a label that occurs twice has one entry,
  which holds the value of its last occurrence.
\<close>

lemma emotions_decode_repeated_label:
  "EmotionsDetection_at
     (emotions_decoding [''neutral'', ''happy'', ''sad'', ''surprise'', ''anger'', ''anger'', ''anger'']) 0
     = Inr [''neutral'' \<mapsto> 1 / 2, ''happy'' \<mapsto> 1 / 8, ''sad'' \<mapsto> 1 / 16, ''surprise'' \<mapsto> 1 / 16,
            ''anger'' \<mapsto> 3 / 32]"
  by (simp add: emotions_decode_value)

text \<open>
  C7: for an Emotion stage with a request and its output tensor, a label vector of 7
  pairwise distinct labels and an output tensor that has a channel dimension
  (\<^verbatim>\<open>getDims().at(1)\<close>): at every index, decode raises ContractViolation if and only if the
  channel dimension differs from 7; and when the channel dimension is 7 and row \<open>idx\<close> lies
  inside the tensor, decode returns a mapping with exactly 7 entries, whose keys are the
  labels and whose values are the elements of row \<open>idx\<close>, unchanged, label \<open>i\<close> with
  element \<open>i\<close>.
\<close>

theorem emotions_decode:
  assumes "request s = Some rq" and "GetBlob rq (outputEmotions s) = Inr blob"
      and "length (emotionsVec s) = 7" and "distinct (emotionsVec s)"
      and "1 < length (dims blob)"
  shows "(EmotionsDetection_at s idx = Inl ContractViolation \<longleftrightarrow> dims blob ! 1 \<noteq> 7) \<and>
         (dims blob ! 1 = 7 \<and> 0 \<le> idx \<and> (idx + 1) * 7 \<le> int (length (floats blob)) \<longrightarrow>
            (\<exists>emotions. EmotionsDetection_at s idx = Inr emotions \<and>
               card (dom emotions) = 7 \<and> dom emotions = set (emotionsVec s) \<and>
               (\<forall>i < 7. emotions (emotionsVec s ! i) = Some (floats blob ! nat (idx * 7 + int i)))))"
proof (intro conjI impI)
  show "EmotionsDetection_at s idx = Inl ContractViolation \<longleftrightarrow> dims blob ! 1 \<noteq> 7"
    using assms
    by (auto simp: EmotionsDetection_at_def Let_def deref_def at_vec_def dest: emotions_loop_Inl)
next
  assume a: "dims blob ! 1 = 7 \<and> 0 \<le> idx \<and> (idx + 1) * 7 \<le> int (length (floats blob))"
  have eq: "EmotionsDetection_at s idx
      = emotions_loop (emotionsVec s) (floats blob) (idx * 7) Map.empty"
    using assms a by (simp add: EmotionsDetection_at_def Let_def deref_def at_vec_def)
  from a assms(3)
  have "0 \<le> idx * 7" "idx * 7 + int (length (emotionsVec s)) \<le> int (length (floats blob))"
    by (simp_all add: algebra_simps)
  from emotions_loop_total [OF this] obtain emotions
    where em: "emotions_loop (emotionsVec s) (floats blob) (idx * 7) Map.empty = Inr emotions"
    by blast
  from emotions_loop_Inr [OF em] assms(3,4)
  have d: "dom emotions = set (emotionsVec s)"
    and v: "\<forall>i < 7. emotions (emotionsVec s ! i) = Some (floats blob ! nat (idx * 7 + int i))"
    by auto
  from assms(3,4) have "card (set (emotionsVec s)) = 7"
    by (simp add: distinct_card)
  with d v em eq
  show "\<exists>emotions. EmotionsDetection_at s idx = Inr emotions \<and>
               card (dom emotions) = 7 \<and> dom emotions = set (emotionsVec s) \<and>
               (\<forall>i < 7. emotions (emotionsVec s ! i) = Some (floats blob ! nat (idx * 7 + int i)))"
    by auto
qed

text \<open>Seven distinct labels on a tensor with 7 channels, and on one with 5.\<close>

theorem emotions_decode_witness:
  "(\<exists>emotions. EmotionsDetection_at (emotions_decoding seven_emotions) 0 = Inr emotions \<and>
      card (dom emotions) = 7 \<and> dom emotions = set seven_emotions \<and>
      emotions ''neutral'' = Some (1 / 2) \<and> emotions ''disgust'' = Some (3 / 32)) \<and>
   EmotionsDetection_at
     ((emotions_decoding seven_emotions)
        \<lparr>request := Some [(''prob_emotion'', \<lparr>dims = [1, 5, 1, 1], floats = [], int32s = []\<rparr>)]\<rparr>) 0
     = Inl ContractViolation"
proof -
  define blob :: Blob where
    "blob = \<lparr>dims = [1, 7, 1, 1],
             floats = [1 / 2, 1 / 8, 1 / 16, 1 / 16, 1 / 8, 1 / 32, 3 / 32], int32s = []\<rparr>"
  define rq :: InferRequest where
    "rq = [(''data'', \<lparr>dims = [1, 3, 2, 2], floats = [], int32s = []\<rparr>), (''prob_emotion'', blob)]"
  define s where "s = emotions_decoding seven_emotions"
  have f: "request s = Some rq" "outputEmotions s = ''prob_emotion''"
      "emotionsVec s = seven_emotions"
    by (simp_all add: s_def rq_def blob_def emotions_decoding_def EmotionsDetection_init_def
        SecondaryStage_init_def EmotionsDetection.defs)
  have h2: "GetBlob rq (outputEmotions s) = Inr blob"
    by (simp add: f GetBlob_def rq_def)
  have h3: "length (emotionsVec s) = 7"
    by (simp add: f seven_emotions_def)
  have h4: "distinct (emotionsVec s)"
    by (simp add: f seven_emotions_def)
  have h5: "1 < length (dims blob)"
    by (simp add: blob_def)
  have a: "dims blob ! 1 = 7 \<and> 0 \<le> (0::int) \<and> (0 + 1) * 7 \<le> int (length (floats blob))"
    by (simp add: blob_def)
  from emotions_decode [OF f(1) h2 h3 h4 h5, of 0] a obtain emotions
    where e: "EmotionsDetection_at s 0 = Inr emotions" "card (dom emotions) = 7"
        "dom emotions = set (emotionsVec s)"
      and v: "\<forall>i < 7. emotions (emotionsVec s ! i) = Some (floats blob ! nat (0 * 7 + int i))"
    by blast
  from v [rule_format, of 0] v [rule_format, of 6]
  have "emotions ''neutral'' = Some (1 / 2)" "emotions ''disgust'' = Some (3 / 32)"
    by (simp_all add: f seven_emotions_def blob_def)
  with e have first: "\<exists>emotions. EmotionsDetection_at (emotions_decoding seven_emotions) 0 = Inr emotions \<and>
      card (dom emotions) = 7 \<and> dom emotions = set seven_emotions \<and>
      emotions ''neutral'' = Some (1 / 2) \<and> emotions ''disgust'' = Some (3 / 32)"
    by (auto simp: s_def [symmetric] f)
  define blob5 :: Blob where "blob5 = \<lparr>dims = [1, 5, 1, 1], floats = [], int32s = []\<rparr>"
  define s5 where "s5 = s\<lparr>request := Some [(''prob_emotion'', blob5)]\<rparr>"
  have g: "request s5 = Some [(''prob_emotion'', blob5)]"
      "GetBlob [(''prob_emotion'', blob5)] (outputEmotions s5) = Inr blob5"
      "length (emotionsVec s5) = 7" "distinct (emotionsVec s5)" "1 < length (dims blob5)"
      "dims blob5 ! 1 \<noteq> 7"
    by (simp_all add: s5_def blob5_def f GetBlob_def seven_emotions_def)
  from emotions_decode [OF g(1-5), of 0] g(6)
  have "EmotionsDetection_at s5 0 = Inl ContractViolation"
    by blast
  then have second: "EmotionsDetection_at
     ((emotions_decoding seven_emotions)
        \<lparr>request := Some [(''prob_emotion'', \<lparr>dims = [1, 5, 1, 1], floats = [], int32s = []\<rparr>)]\<rparr>) 0
     = Inl ContractViolation"
    by (simp add: s5_def s_def blob5_def)
  from first second show ?thesis ..
qed

end
